theory Spec2Isabelle
  imports Main "HOL-Library.Word" "HOL-Library.Sublist" "HOL-Library.Multiset"
begin

section \<open>The weekly to-do component: data model\<close>

text \<open>
  The embedding follows \<^verbatim>\<open>minimalist_to_do_app_react_single_file.jsx\<close>. React state
  cells become fields of a record that every handler takes and returns; the results of
  \<^verbatim>\<open>uid()\<close>, \<^verbatim>\<open>Date.now()\<close>, \<^verbatim>\<open>localStorage.getItem\<close> and \<^verbatim>\<open>JSON.parse\<close> are inputs of the
  handler that calls them; a raised exception is the \<open>Inl\<close> branch of a sum.

  A JavaScript string is a sequence of UTF-16 code units.
\<close>

type_synonym jschar = "16 word"
type_synonym jsstring = "jschar list"

datatype error = TypeError | SyntaxError | SecurityError

text \<open>A task object \<^verbatim>\<open>{id, text, done, createdAt}\<close>; \<^verbatim>\<open>id\<close> is written \<open>id'\<close>.\<close>

record task =
  id' :: jsstring
  "text" :: jsstring
  "done" :: bool
  createdAt :: int

text \<open>
  What \<^verbatim>\<open>tasksByDate[key]\<close> can hold. Every handler but one stores an array of tasks.
  \<^verbatim>\<open>onDragOver\<close> hands \<^verbatim>\<open>setTasksForKey\<close> an arrow function \<^verbatim>\<open>prev => {...}\<close>, which is
  stored as it is: \<open>Updater dragIndex index\<close> is that closure, given by the two variables
  it captures.
\<close>

datatype bucket = Tasks "task list" | Updater nat nat

text \<open>The \<^verbatim>\<open>filter\<close> state cell holds one of \<^verbatim>\<open>"all"\<close>, \<^verbatim>\<open>"active"\<close>, \<^verbatim>\<open>"done"\<close>.\<close>

datatype filter_mode = FilterAll | FilterActive | FilterDone

record state =
  tasksByDate :: "jsstring \<rightharpoonup> bucket"
  query :: jsstring
  filter' :: filter_mode
  selectedDayIndex :: nat
  dragItem :: "nat option"

text \<open>
  The component as it mounts: no bucket, an empty input, the filter \<^verbatim>\<open>"all"\<close>, and the
  index of today's weekday counted from Monday. The \<^verbatim>\<open>dark\<close> cell only styles the page and
  is left out.
\<close>

definition initialState :: "nat \<Rightarrow> state" where
  "initialState todayGetDay =
     \<lparr>tasksByDate = Map.empty, query = [], filter' = FilterAll,
      selectedDayIndex = (todayGetDay + 6) mod 7, dragItem = None\<rparr>"

section \<open>Strings\<close>

text \<open>
  \<^verbatim>\<open>String.prototype.trim\<close> strips the code units of WhiteSpace and LineTerminator
  (ECMA-262) from both ends.
\<close>

definition isWhiteSpace :: "jschar \<Rightarrow> bool" where
  "isWhiteSpace c \<longleftrightarrow>
     c = 0x0009 \<or> c = 0x000A \<or> c = 0x000B \<or> c = 0x000C \<or> c = 0x000D \<or> c = 0x0020 \<or>
     c = 0x00A0 \<or> c = 0x1680 \<or> (0x2000 \<le> c \<and> c \<le> 0x200A) \<or> c = 0x2028 \<or>
     c = 0x2029 \<or> c = 0x202F \<or> c = 0x205F \<or> c = 0x3000 \<or> c = 0xFEFF"

definition trim :: "jsstring \<Rightarrow> jsstring" where
  "trim s = rev (dropWhile isWhiteSpace (rev (dropWhile isWhiteSpace s)))"

section \<open>The week\<close>

text \<open>
  A \<^verbatim>\<open>Date\<close> at local midnight is the number of its calendar day, day 0 being Thursday
  1 January 1970, so that \<^verbatim>\<open>setDate(getDate() + i)\<close> adds \<open>i\<close>. \<^verbatim>\<open>isoDate\<close> renders a day as
  its key and is a parameter.
\<close>

definition getDay :: "int \<Rightarrow> nat" where
  "getDay d = nat ((d + 4) mod 7)"

definition startOfWeek :: "int \<Rightarrow> int" where
  "startOfWeek d = d - int ((getDay d + 6) mod 7)"

record weekDate =
  index :: nat
  date :: int
  key :: jsstring

definition weekDates :: "(int \<Rightarrow> jsstring) \<Rightarrow> int \<Rightarrow> weekDate list" where
  "weekDates isoDate weekStart =
     map (\<lambda>i. \<lparr>index = i, date = weekStart + int i, key = isoDate (weekStart + int i)\<rparr>) [0..<7]"

text \<open>\<^verbatim>\<open>weekDates[i].key\<close>: past the end the element is \<^verbatim>\<open>undefined\<close> and reading \<^verbatim>\<open>.key\<close> raises.\<close>

definition keyAt :: "weekDate list \<Rightarrow> nat \<Rightarrow> error + jsstring" where
  "keyAt wd i = (if i < length wd then Inr (key (wd ! i)) else Inl TypeError)"

definition selectedKey :: "weekDate list \<Rightarrow> state \<Rightarrow> error + jsstring" where
  "selectedKey wd st = keyAt wd (selectedDayIndex st)"

definition nextDayKey :: "weekDate list \<Rightarrow> state \<Rightarrow> error + jsstring" where
  "nextDayKey wd st = keyAt wd ((selectedDayIndex st + 1) mod 7)"

definition yesterdayKey :: "weekDate list \<Rightarrow> state \<Rightarrow> error + jsstring" where
  "yesterdayKey wd st = keyAt wd ((selectedDayIndex st + 6) mod 7)"

section \<open>The store\<close>

definition tasksForKey :: "state \<Rightarrow> jsstring \<Rightarrow> bucket" where
  "tasksForKey st k = (case tasksByDate st k of Some b \<Rightarrow> b | None \<Rightarrow> Tasks [])"

definition setTasksForKey :: "jsstring \<Rightarrow> bucket \<Rightarrow> state \<Rightarrow> state" where
  "setTasksForKey k arr st = st\<lparr>tasksByDate := (tasksByDate st)(k \<mapsto> arr)\<rparr>"

text \<open>
  \<^verbatim>\<open>.map\<close>, \<^verbatim>\<open>.filter\<close> and the spread \<^verbatim>\<open>[...x]\<close> need an array: a function has no \<^verbatim>\<open>map\<close> or
  \<^verbatim>\<open>filter\<close> property and is not iterable, so each raises a TypeError on it.
\<close>

definition asArray :: "bucket \<Rightarrow> error + task list" where
  "asArray b = (case b of Tasks ts \<Rightarrow> Inr ts | Updater i j \<Rightarrow> Inl TypeError)"

section \<open>Handlers\<close>

text \<open>
  A handler reads \<^verbatim>\<open>tasksByDate\<close> from the render that created it and writes through
  \<^verbatim>\<open>setTasksByDate(prev => ...)\<close>; one handler runs per event, so both are the state the
  handler is given here.

  \<^verbatim>\<open>addTask(text, targetKey)\<close>: \<open>uid\<close> and \<open>now\<close> are what \<^verbatim>\<open>uid()\<close> and \<^verbatim>\<open>Date.now()\<close> return.
  Both callers pass the \<^verbatim>\<open>query\<close> cell, a string, on which \<^verbatim>\<open>text || ""\<close> is the string
  itself. \<^verbatim>\<open>setQuery("")\<close> empties the cell; the focus call touches no state.
\<close>

definition addTask :: "jsstring \<Rightarrow> int \<Rightarrow> jsstring \<Rightarrow> jsstring \<Rightarrow> state \<Rightarrow> error + state" where
  "addTask uid now txt targetKey st =
     (let t = trim txt in
      if t = [] then Inr st
      else
        let newTask = \<lparr>id' = uid, text = t, done = False, createdAt = now\<rparr> in
        (case asArray (tasksForKey st targetKey) of
           Inl e \<Rightarrow> Inl e
         | Inr existing \<Rightarrow>
             Inr ((setTasksForKey targetKey (Tasks (newTask # existing)) st)\<lparr>query := []\<rparr>)))"

definition toggleDone :: "jsstring \<Rightarrow> jsstring \<Rightarrow> state \<Rightarrow> error + state" where
  "toggleDone k i st =
     (case asArray (tasksForKey st k) of
        Inl e \<Rightarrow> Inl e
      | Inr ts \<Rightarrow>
          Inr (setTasksForKey k
                 (Tasks (map (\<lambda>t. if id' t = i then t\<lparr>done := \<not> done t\<rparr> else t) ts)) st))"

definition deleteTask :: "jsstring \<Rightarrow> jsstring \<Rightarrow> state \<Rightarrow> error + state" where
  "deleteTask k i st =
     (case asArray (tasksForKey st k) of
        Inl e \<Rightarrow> Inl e
      | Inr ts \<Rightarrow> Inr (setTasksForKey k (Tasks (filter (\<lambda>t. id' t \<noteq> i) ts)) st))"

definition editTask :: "jsstring \<Rightarrow> jsstring \<Rightarrow> jsstring \<Rightarrow> state \<Rightarrow> error + state" where
  "editTask k i newText st =
     (case asArray (tasksForKey st k) of
        Inl e \<Rightarrow> Inl e
      | Inr ts \<Rightarrow>
          Inr (setTasksForKey k
                 (Tasks (map (\<lambda>t. if id' t = i then t\<lparr>text := newText\<rparr> else t) ts)) st))"

definition clearCompleted :: "jsstring \<Rightarrow> state \<Rightarrow> error + state" where
  "clearCompleted k st =
     (case asArray (tasksForKey st k) of
        Inl e \<Rightarrow> Inl e
      | Inr ts \<Rightarrow> Inr (setTasksForKey k (Tasks (filter (\<lambda>t. \<not> done t) ts)) st))"

definition clearAll :: "jsstring \<Rightarrow> state \<Rightarrow> error + state" where
  "clearAll k st = Inr (setTasksForKey k (Tasks []) st)"

text \<open>
  \<^verbatim>\<open>importYesterday\<close>: \<open>uids n\<close> and \<open>nows n\<close> are what \<^verbatim>\<open>uid()\<close> and \<^verbatim>\<open>Date.now()\<close> return in the
  callback for element \<open>n\<close> of \<^verbatim>\<open>from\<close>.
\<close>

definition importYesterday ::
  "(nat \<Rightarrow> jsstring) \<Rightarrow> (nat \<Rightarrow> int) \<Rightarrow> weekDate list \<Rightarrow> state \<Rightarrow> error + state" where
  "importYesterday uids nows wd st =
     (case selectedKey wd st of
        Inl e \<Rightarrow> Inl e
      | Inr sk \<Rightarrow>
     (case yesterdayKey wd st of
        Inl e \<Rightarrow> Inl e
      | Inr yk \<Rightarrow>
     (case asArray (tasksForKey st yk) of
        Inl e \<Rightarrow> Inl e
      | Inr ys \<Rightarrow>
          let from = filter (\<lambda>t. \<not> done t) ys in
          if from = [] then Inr st
          else
            let copies =
                  map (\<lambda>(n, f). \<lparr>id' = uids n, text = text f, done = False, createdAt = nows n\<rparr>)
                    (enumerate 0 from)
            in (case asArray (tasksForKey st sk) of
                  Inl e \<Rightarrow> Inl e
                | Inr dest \<Rightarrow> Inr (setTasksForKey sk (Tasks (copies @ dest)) st)))))"

subsection \<open>Drag and drop\<close>

definition onDragStart :: "nat \<Rightarrow> state \<Rightarrow> state" where
  "onDragStart i st = st\<lparr>dragItem := Some i\<rparr>"

text \<open>
  The body of the arrow function built in \<^verbatim>\<open>onDragOver\<close>, on the array \<^verbatim>\<open>prev\<close> it would
  receive: copy, splice one element out at \<open>dragIndex\<close>, splice it in at \<open>index\<close>. With
  \<open>dragIndex\<close> past the end \<^verbatim>\<open>moved\<close> is \<^verbatim>\<open>undefined\<close>, which is no task: \<open>None\<close>.
\<close>

definition updaterBody :: "nat \<Rightarrow> nat \<Rightarrow> task list \<Rightarrow> task list option" where
  "updaterBody dragIndex i prev =
     (if dragIndex < length prev then
        let moved = prev ! dragIndex;
            copy = take dragIndex prev @ drop (Suc dragIndex) prev
        in Some (take i copy @ moved # drop i copy)
      else None)"

text \<open>
  \<^verbatim>\<open>onDragOver\<close> passes the arrow function as the \<^verbatim>\<open>arr\<close> argument of \<^verbatim>\<open>setTasksForKey\<close>,
  which binds the key to its argument: nothing calls the function, so neither the splice
  nor its assignment to \<^verbatim>\<open>dragItem.current\<close> runs.
\<close>

definition onDragOver :: "weekDate list \<Rightarrow> nat \<Rightarrow> state \<Rightarrow> error + state" where
  "onDragOver wd i st =
     (case dragItem st of
        None \<Rightarrow> Inr st
      | Some dragIndex \<Rightarrow>
          if dragIndex = i then Inr st
          else (case selectedKey wd st of
                  Inl e \<Rightarrow> Inl e
                | Inr sk \<Rightarrow> Inr (setTasksForKey sk (Updater dragIndex i) st)))"

definition onDragEnd :: "state \<Rightarrow> state" where
  "onDragEnd st = st\<lparr>dragItem := None\<rparr>"

subsection \<open>The view\<close>

definition visible :: "weekDate list \<Rightarrow> state \<Rightarrow> error + task list" where
  "visible wd st =
     (case selectedKey wd st of
        Inl e \<Rightarrow> Inl e
      | Inr sk \<Rightarrow>
     (case asArray (tasksForKey st sk) of
        Inl e \<Rightarrow> Inl e
      | Inr ts \<Rightarrow>
          Inr (filter (\<lambda>t. if filter' st = FilterActive then \<not> done t
                           else if filter' st = FilterDone then done t
                           else True) ts)))"

record stats =
  total :: nat
  active :: nat
  done' :: nat

definition stats :: "weekDate list \<Rightarrow> state \<Rightarrow> error + stats" where
  "stats wd st =
     (case selectedKey wd st of
        Inl e \<Rightarrow> Inl e
      | Inr sk \<Rightarrow>
     (case asArray (tasksForKey st sk) of
        Inl e \<Rightarrow> Inl e
      | Inr ts \<Rightarrow>
          Inr \<lparr>total = length ts,
               active = length (filter (\<lambda>t. \<not> done t) ts),
               done' = length (filter (\<lambda>t. done t) ts)\<rparr>))"

subsection \<open>The inline editor\<close>

record editor =
  editing :: bool
  "value" :: jsstring

text \<open>
  \<^verbatim>\<open>EditableText.save\<close>, with the \<^verbatim>\<open>text\<close> and \<^verbatim>\<open>onSave\<close> props. The list passes
  \<^verbatim>\<open>newText => editTask(selectedKey, task.id, newText)\<close> as \<^verbatim>\<open>onSave\<close>.
\<close>

definition save ::
  "jsstring \<Rightarrow> (jsstring \<Rightarrow> state \<Rightarrow> error + state) \<Rightarrow> editor \<times> state \<Rightarrow> error + editor \<times> state" where
  "save txt onSave es =
     (let ed = fst es; st = snd es; trimmed = trim (value ed) in
      if trimmed = [] then Inr (ed\<lparr>value := txt, editing := False\<rparr>, st)
      else (case onSave trimmed st of
              Inl e \<Rightarrow> Inl e
            | Inr st' \<Rightarrow> Inr (ed\<lparr>editing := False\<rparr>, st')))"

subsection \<open>Hydration\<close>

text \<open>
  Values \<^verbatim>\<open>JSON.parse\<close> can return. Numbers are kept to integers; nothing below reads one.
\<close>

datatype json =
  JNull | JBool bool | JNumber int | JString jsstring
| JArray "json list" | JObject "(jsstring \<times> json) list"

fun isObject :: "json \<Rightarrow> bool" where
  "isObject (JObject kvs) = True"
| "isObject j = False"

text \<open>
  The mount effect. \<open>getItem\<close> is the outcome of \<^verbatim>\<open>localStorage.getItem(STORAGE_KEY)\<close>
  (\<open>Inr None\<close> is \<^verbatim>\<open>null\<close>), \<open>JSON_parse\<close> is \<^verbatim>\<open>JSON.parse\<close>, \<open>cur\<close> the value of the
  \<^verbatim>\<open>tasksByDate\<close> cell, which the effect replaces with whatever was parsed. \<open>loadTry\<close> is
  the \<^verbatim>\<open>try\<close> block, \<open>load\<close> adds the \<^verbatim>\<open>catch\<close>; the second component is what
  \<^verbatim>\<open>console.warn\<close> received.
\<close>

definition loadTry ::
  "error + jsstring option \<Rightarrow> (jsstring \<Rightarrow> error + 'v) \<Rightarrow> 'v \<Rightarrow> error + 'v" where
  "loadTry getItem JSON_parse cur =
     (case getItem of
        Inl e \<Rightarrow> Inl e
      | Inr None \<Rightarrow> Inr cur
      | Inr (Some raw) \<Rightarrow>
          if raw = [] then Inr cur
          else (case JSON_parse raw of Inl e \<Rightarrow> Inl e | Inr v \<Rightarrow> Inr v))"

definition load ::
  "error + jsstring option \<Rightarrow> (jsstring \<Rightarrow> error + 'v) \<Rightarrow> 'v \<Rightarrow> error + 'v \<times> error list" where
  "load getItem JSON_parse cur =
     (case loadTry getItem JSON_parse cur of
        Inl e \<Rightarrow> Inr (cur, [e])
      | Inr v \<Rightarrow> Inr (v, []))"

section \<open>Concrete inputs\<close>

text \<open>
  A stand-in for \<^verbatim>\<open>isoDate\<close> (the letter d and one code unit for the day number), three
  tasks and a state whose Monday bucket holds them, the second one done.
\<close>

definition dayKey :: "int \<Rightarrow> jsstring" where
  "dayKey d = [0x64, word_of_int d]"

definition taskA :: task where
  "taskA = \<lparr>id' = [0x61], text = [0x41], done = False, createdAt = 1\<rparr>"

definition taskB :: task where
  "taskB = \<lparr>id' = [0x62], text = [0x42], done = True, createdAt = 2\<rparr>"

definition taskC :: task where
  "taskC = \<lparr>id' = [0x63], text = [0x43], done = False, createdAt = 3\<rparr>"

definition mondayState :: state where
  "mondayState =
     \<lparr>tasksByDate = [dayKey 0 \<mapsto> Tasks [taskA, taskB, taskC]], query = [0x20, 0x44, 0x20],
      filter' = FilterAll, selectedDayIndex = 0, dragItem = None\<rparr>"

definition tuesdayState :: state where
  "tuesdayState = mondayState\<lparr>selectedDayIndex := 1\<rparr>"

definition draggingState :: state where
  "draggingState = onDragStart 0 mondayState"

text \<open>The identifiers of the tasks of a bucket are pairwise distinct.\<close>

definition bucketIdsUnique :: "bucket \<Rightarrow> bool" where
  "bucketIdsUnique b = (case b of Tasks ts \<Rightarrow> distinct (map id' ts) | Updater i j \<Rightarrow> True)"

definition uidsDemo :: "nat \<Rightarrow> jsstring" where
  "uidsDemo n = [0x75, of_nat n]"

definition nowsDemo :: "nat \<Rightarrow> int" where
  "nowsDemo n = 10 + int n"

text \<open>Every task of a bucket has a text that is not empty and that \<open>trim\<close> leaves as it is.\<close>

definition bucketTextsTrimmed :: "bucket \<Rightarrow> bool" where
  "bucketTextsTrimmed b =
     (case b of
        Tasks ts \<Rightarrow> list_all (\<lambda>t. text t \<noteq> [] \<and> trim (text t) = text t) ts
      | Updater i j \<Rightarrow> True)"

abbreviation allTextsTrimmed :: "state \<Rightarrow> bool" where
  "allTextsTrimmed st \<equiv> \<forall>k. bucketTextsTrimmed (tasksForKey st k)"

definition editorDemo :: editor where
  "editorDemo = \<lparr>editing = True, value = [0x20, 0x45, 0x09]\<rparr>"

text \<open>
  The text \<^verbatim>\<open>null\<close>, and \<^verbatim>\<open>JSON.parse\<close> on the three texts used below: \<^verbatim>\<open>null\<close> and \<^verbatim>\<open>{}\<close>
  parse, a lone \<^verbatim>\<open>{\<close> is a SyntaxError.
\<close>

definition nullText :: jsstring where
  "nullText = [0x6E, 0x75, 0x6C, 0x6C]"

definition parseDemo :: "jsstring \<Rightarrow> error + json" where
  "parseDemo s =
     (if s = nullText then Inr JNull
      else if s = [0x7B, 0x7D] then Inr (JObject [])
      else Inl SyntaxError)"

section \<open>Facts about \<open>trim\<close>\<close>

lemma dropWhile_id_hd: "xs = [] \<or> \<not> P (hd xs) \<Longrightarrow> dropWhile P xs = xs"
  by (cases xs) auto

lemma dropWhile_last: "dropWhile P xs \<noteq> [] \<Longrightarrow> last (dropWhile P xs) = last xs"
  by (induction xs) (auto split: if_splits)

lemma all_dropWhile: "(\<forall>x\<in>set (dropWhile P xs). P x) \<longleftrightarrow> (\<forall>x\<in>set xs. P x)"
  by (induction xs) auto

lemma trim_ends:
  assumes "trim s \<noteq> []"
  shows "\<not> isWhiteSpace (hd (trim s))" "\<not> isWhiteSpace (last (trim s))"
proof -
  let ?a = "dropWhile isWhiteSpace s"
  let ?b = "dropWhile isWhiteSpace (rev ?a)"
  from assms have b: "?b \<noteq> []" by (simp add: trim_def)
  have a: "?a \<noteq> []"
  proof
    assume "?a = []"
    with b show False by simp
  qed
  have "last ?b = last (rev ?a)" using b by (rule dropWhile_last)
  also have "\<dots> = hd ?a" using a by (simp add: last_rev)
  finally have "\<not> isWhiteSpace (last ?b)" using a by (simp add: hd_dropWhile)
  then show "\<not> isWhiteSpace (hd (trim s))" using b by (simp add: trim_def hd_rev)
  show "\<not> isWhiteSpace (last (trim s))" using b by (simp add: trim_def last_rev hd_dropWhile)
qed

lemma trim_fixed:
  assumes "s = [] \<or> (\<not> isWhiteSpace (hd s) \<and> \<not> isWhiteSpace (last s))"
  shows "trim s = s"
proof (cases "s = []")
  case True
  then show ?thesis by (simp add: trim_def)
next
  case False
  with assms have h: "\<not> isWhiteSpace (hd s)" and l: "\<not> isWhiteSpace (last s)" by auto
  have 1: "dropWhile isWhiteSpace s = s" using False h by (simp add: dropWhile_id_hd)
  have "hd (rev s) = last s" using False by (simp add: hd_rev)
  then have 2: "dropWhile isWhiteSpace (rev s) = rev s" using False l by (simp add: dropWhile_id_hd)
  show ?thesis by (simp add: trim_def 1 2)
qed

lemma trim_idem: "trim (trim s) = trim s"
  using trim_ends [of s] by (intro trim_fixed) auto

lemma trim_eq_Nil_iff: "trim s = [] \<longleftrightarrow> (\<forall>c\<in>set s. isWhiteSpace c)"
  by (simp add: trim_def dropWhile_eq_Nil_conv all_dropWhile)

lemma nonempty_trimmed_not_blank:
  assumes "s \<noteq> []" and "trim s = s"
  shows "\<exists>c\<in>set s. \<not> isWhiteSpace c"
  using assms trim_eq_Nil_iff [of s] by auto

lemma weekDates_unfold:
  "weekDates f ws =
     [\<lparr>index = 0, date = ws, key = f ws\<rparr>,
      \<lparr>index = 1, date = ws + 1, key = f (ws + 1)\<rparr>,
      \<lparr>index = 2, date = ws + 2, key = f (ws + 2)\<rparr>,
      \<lparr>index = 3, date = ws + 3, key = f (ws + 3)\<rparr>,
      \<lparr>index = 4, date = ws + 4, key = f (ws + 4)\<rparr>,
      \<lparr>index = 5, date = ws + 5, key = f (ws + 5)\<rparr>,
      \<lparr>index = 6, date = ws + 6, key = f (ws + 6)\<rparr>]"
  by (simp add: weekDates_def upt_rec [of _ 7] upt_rec [of _ "Suc _"] numeral_eq_Suc)

section \<open>Adding a task\<close>

text \<open>
  C1, amended. For a bucket that is an array \<open>ts\<close> and any input string, \<open>addTask\<close> trims
  the string. If nothing is left it returns the state as it was, so no task is created.
  Otherwise it returns a state whose bucket has one element more: the first is the new
  task, carrying the trimmed string, \<open>done = False\<close>, the reading of \<^verbatim>\<open>Date.now()\<close> and the
  identifier \<^verbatim>\<open>uid()\<close> returned; the tasks that were there follow, unchanged and in their
  order. The new identifier differs from those of the tasks that follow exactly when the
  value \<^verbatim>\<open>uid()\<close> returned is not among the identifiers of the bucket.
\<close>

theorem addTask_prepends_trimmed:
  assumes "tasksForKey st k = Tasks ts"
  shows "(trim txt = [] \<longrightarrow> addTask u n txt k st = Inr st) \<and>
         (trim txt \<noteq> [] \<longrightarrow>
            (\<exists>st' ts'. addTask u n txt k st = Inr st' \<and> tasksForKey st' k = Tasks ts' \<and>
               length ts' = length ts + 1 \<and>
               hd ts' = \<lparr>id' = u, text = trim txt, done = False, createdAt = n\<rparr> \<and>
               tl ts' = ts \<and>
               (id' (hd ts') \<in> set (map id' (tl ts'))) = (u \<in> set (map id' ts))))"
  using assms
  by (simp add: addTask_def asArray_def tasksForKey_def setTasksForKey_def Let_def)

text \<open>
  C1, as stated, fails on the identifier: nothing compares what \<^verbatim>\<open>uid()\<close> returns with the
  identifiers in the bucket. Adding to the Monday bucket with a draw equal to the
  identifier of \<open>taskA\<close> puts in front of \<open>taskA\<close> a task with that same identifier.
\<close>

theorem addTask_reused_id_counterexample:
  "tasksForKey mondayState (dayKey 0) = Tasks [taskA, taskB, taskC] \<and>
   id' taskA = [0x61] \<and>
   (case addTask [0x61] 4 [0x44] (dayKey 0) mondayState of
      Inl e \<Rightarrow> False
    | Inr st' \<Rightarrow>
        tasksForKey st' (dayKey 0)
          = Tasks [\<lparr>id' = [0x61], text = [0x44], done = False, createdAt = 4\<rparr>,
                   taskA, taskB, taskC])"
proof -
  have b: "tasksForKey mondayState (dayKey 0) = Tasks [taskA, taskB, taskC]"
    by (simp add: tasksForKey_def mondayState_def)
  have t: "trim [0x44] = [0x44]" by (simp add: trim_def isWhiteSpace_def)
  have i: "id' taskA = [0x61]" by (simp add: taskA_def)
  have r: "addTask [0x61] 4 [0x44] (dayKey 0) mondayState =
     Inr ((setTasksForKey (dayKey 0)
            (Tasks [\<lparr>id' = [0x61], text = [0x44], done = False, createdAt = 4\<rparr>,
                    taskA, taskB, taskC])
            mondayState)\<lparr>query := []\<rparr>)"
    by (simp add: addTask_def t b asArray_def)
  have "case addTask [0x61] 4 [0x44] (dayKey 0) mondayState of
      Inl e \<Rightarrow> False
    | Inr st' \<Rightarrow>
        tasksForKey st' (dayKey 0)
          = Tasks [\<lparr>id' = [0x61], text = [0x44], done = False, createdAt = 4\<rparr>,
                   taskA, taskB, taskC]"
    unfolding r by (simp add: tasksForKey_def setTasksForKey_def)
  with b i show ?thesis by blast
qed

theorem addTask_prepends_trimmed_witness:
  "tasksForKey mondayState (dayKey 0) = Tasks [taskA, taskB, taskC] \<and>
   trim [0x20, 0x44, 0x20] = [0x44] \<and>
   [0x64] \<notin> set (map id' [taskA, taskB, taskC]) \<and>
   (\<exists>st' ts'. addTask [0x64] 4 [0x20, 0x44, 0x20] (dayKey 0) mondayState = Inr st' \<and>
      tasksForKey st' (dayKey 0) = Tasks ts' \<and>
      ts' = [\<lparr>id' = [0x64], text = [0x44], done = False, createdAt = 4\<rparr>, taskA, taskB, taskC] \<and>
      id' (hd ts') \<notin> set (map id' (tl ts'))) \<and>
   trim [0x20, 0x09] = [] \<and>
   addTask [0x64] 4 [0x20, 0x09] (dayKey 0) mondayState = Inr mondayState"
proof -
  have b: "tasksForKey mondayState (dayKey 0) = Tasks [taskA, taskB, taskC]"
    by (simp add: tasksForKey_def mondayState_def)
  have t1: "trim [0x20, 0x44, 0x20] = [0x44]" by (simp add: trim_def isWhiteSpace_def)
  have t2: "trim [0x20, 0x09] = []" by (simp add: trim_def isWhiteSpace_def)
  have f: "[0x64] \<notin> set (map id' [taskA, taskB, taskC])"
    by (simp add: taskA_def taskB_def taskC_def)
  from addTask_prepends_trimmed [OF b, of "[0x20, 0x44, 0x20]" "[0x64]" 4] t1 f
  obtain st' ts' where r: "addTask [0x64] 4 [0x20, 0x44, 0x20] (dayKey 0) mondayState = Inr st'"
    "tasksForKey st' (dayKey 0) = Tasks ts'"
    "hd ts' = \<lparr>id' = [0x64], text = [0x44], done = False, createdAt = 4\<rparr>"
    "tl ts' = [taskA, taskB, taskC]" "length ts' = 4"
    "id' (hd ts') \<notin> set (map id' (tl ts'))"
    by auto
  from r(3,4,5)
  have l: "ts' = [\<lparr>id' = [0x64], text = [0x44], done = False, createdAt = 4\<rparr>, taskA, taskB, taskC]"
    by (cases ts') auto
  from addTask_prepends_trimmed [OF b, of "[0x20, 0x09]" "[0x64]" 4] t2
  have e: "addTask [0x64] 4 [0x20, 0x09] (dayKey 0) mondayState = Inr mondayState" by simp
  from r(1,2,6) l have "\<exists>st' ts'. addTask [0x64] 4 [0x20, 0x44, 0x20] (dayKey 0) mondayState = Inr st' \<and>
      tasksForKey st' (dayKey 0) = Tasks ts' \<and>
      ts' = [\<lparr>id' = [0x64], text = [0x44], done = False, createdAt = 4\<rparr>, taskA, taskB, taskC] \<and>
      id' (hd ts') \<notin> set (map id' (tl ts'))"
    by blast
  with b t1 t2 f e show ?thesis by blast
qed

section \<open>Importing yesterday's unfinished tasks\<close>

lemma clones_text:
  "map text (map (\<lambda>(n, f). \<lparr>id' = uids n, text = text f, done = False, createdAt = nows n\<rparr>)
      (enumerate m xs)) = map text xs"
  by (induction xs arbitrary: m) auto

lemma clones_id:
  "map id' (map (\<lambda>(n, f). \<lparr>id' = uids n, text = text f, done = False, createdAt = nows n\<rparr>)
      (enumerate m xs)) = map uids [m..<m + length xs]"
  by (induction xs arbitrary: m) (auto simp: upt_rec)

lemma clones_createdAt:
  "map createdAt (map (\<lambda>(n, f). \<lparr>id' = uids n, text = text f, done = False, createdAt = nows n\<rparr>)
      (enumerate m xs)) = map nows [m..<m + length xs]"
  by (induction xs arbitrary: m) (auto simp: upt_rec)

lemma clones_done:
  "list_all (\<lambda>c. \<not> done c)
     (map (\<lambda>(n, f). \<lparr>id' = uids n, text = text f, done = False, createdAt = nows n\<rparr>)
        (enumerate m xs))"
  by (induction xs arbitrary: m) auto

text \<open>
  C2, amended. With \<open>src\<close> the array of yesterday's key and \<open>dest\<close> the array of the selected
  key, \<open>importYesterday\<close> keeps the tasks of \<open>src\<close> that are not done. If there is none, the
  state is returned as it was. Otherwise the selected bucket becomes \<open>copies @ dest\<close>,
  where \<open>copies\<close> has one new task per kept task, in the order of \<open>src\<close>: the same text,
  \<open>done = False\<close>, and the identifier and time stamp that \<^verbatim>\<open>uid()\<close> and \<^verbatim>\<open>Date.now()\<close>
  returned in the callback for that element. The identifiers of the clones are pairwise
  distinct exactly when the values \<^verbatim>\<open>uid()\<close> returned are, and are none of the identifiers
  of \<open>src\<close> and \<open>dest\<close> exactly when none of those values is.
\<close>

theorem importYesterday_clones_unfinished:
  assumes "selectedKey wd st = Inr sk" and "yesterdayKey wd st = Inr yk"
    and "tasksForKey st yk = Tasks src" and "tasksForKey st sk = Tasks dest"
  shows "(filter (\<lambda>t. \<not> done t) src = [] \<longrightarrow> importYesterday uids nows wd st = Inr st) \<and>
         (filter (\<lambda>t. \<not> done t) src \<noteq> [] \<longrightarrow>
            (\<exists>st' copies. importYesterday uids nows wd st = Inr st' \<and>
               tasksForKey st' sk = Tasks (copies @ dest) \<and>
               length copies = length (filter (\<lambda>t. \<not> done t) src) \<and>
               map text copies = map text (filter (\<lambda>t. \<not> done t) src) \<and>
               list_all (\<lambda>c. \<not> done c) copies \<and>
               map id' copies = map uids [0..<length copies] \<and>
               map createdAt copies = map nows [0..<length copies] \<and>
               distinct (map id' copies) = distinct (map uids [0..<length copies]) \<and>
               (set (map id' copies) \<inter> set (map id' (src @ dest)) = {})
                 = (set (map uids [0..<length copies]) \<inter> set (map id' (src @ dest)) = {})))"
proof (intro conjI impI)
  assume "filter (\<lambda>t. \<not> done t) src = []"
  with assms show "importYesterday uids nows wd st = Inr st"
    by (simp add: importYesterday_def asArray_def)
next
  let ?from = "filter (\<lambda>t. \<not> done t) src"
  let ?copies = "map (\<lambda>(n, f). \<lparr>id' = uids n, text = text f, done = False, createdAt = nows n\<rparr>)
                   (enumerate 0 ?from)"
  let ?st' = "setTasksForKey sk (Tasks (?copies @ dest)) st"
  assume ne: "?from \<noteq> []"
  with assms have "importYesterday uids nows wd st = Inr ?st'"
    by (simp add: importYesterday_def asArray_def Let_def)
  moreover have "tasksForKey ?st' sk = Tasks (?copies @ dest)"
    by (simp add: tasksForKey_def setTasksForKey_def)
  moreover have "length ?copies = length ?from" by simp
  moreover have "map text ?copies = map text ?from" by (rule clones_text)
  moreover have "list_all (\<lambda>c. \<not> done c) ?copies" by (rule clones_done)
  moreover have ids: "map id' ?copies = map uids [0..<length ?copies]"
    using clones_id [of uids nows 0 ?from] by simp
  moreover have "map createdAt ?copies = map nows [0..<length ?copies]"
    using clones_createdAt [of uids nows 0 ?from] by simp
  moreover have "distinct (map id' ?copies) = distinct (map uids [0..<length ?copies])"
    using arg_cong [OF ids, of distinct] .
  moreover have "(set (map id' ?copies) \<inter> set (map id' (src @ dest)) = {})
                 = (set (map uids [0..<length ?copies]) \<inter> set (map id' (src @ dest)) = {})"
    using arg_cong [OF ids, of "\<lambda>xs. set xs \<inter> set (map id' (src @ dest)) = {}"] .
  ultimately show "\<exists>st' copies. importYesterday uids nows wd st = Inr st' \<and>
               tasksForKey st' sk = Tasks (copies @ dest) \<and>
               length copies = length ?from \<and>
               map text copies = map text ?from \<and>
               list_all (\<lambda>c. \<not> done c) copies \<and>
               map id' copies = map uids [0..<length copies] \<and>
               map createdAt copies = map nows [0..<length copies] \<and>
               distinct (map id' copies) = distinct (map uids [0..<length copies]) \<and>
               (set (map id' copies) \<inter> set (map id' (src @ dest)) = {})
                 = (set (map uids [0..<length copies]) \<inter> set (map id' (src @ dest)) = {})"
    by blast
qed

lemma tuesday_keys:
  "selectedKey (weekDates dayKey 0) tuesdayState = Inr (dayKey 1)"
  "yesterdayKey (weekDates dayKey 0) tuesdayState = Inr (dayKey 0)"
  by (simp_all add: selectedKey_def yesterdayKey_def keyAt_def weekDates_unfold tuesdayState_def
      mondayState_def)

lemma tuesday_buckets:
  "tasksForKey tuesdayState (dayKey 0) = Tasks [taskA, taskB, taskC]"
  "tasksForKey tuesdayState (dayKey 1) = Tasks []"
  by (simp_all add: tasksForKey_def tuesdayState_def mondayState_def dayKey_def)

text \<open>
  C2, as stated, fails on the identifiers: nothing compares what \<^verbatim>\<open>uid()\<close> returns with
  any identifier. Importing Monday's two unfinished tasks into Tuesday with two draws
  equal to the identifier of \<open>taskA\<close> gives two clones that share the identifier of the
  task the first was cloned from.
\<close>

theorem importYesterday_reused_id_counterexample:
  "tasksForKey tuesdayState (dayKey 0) = Tasks [taskA, taskB, taskC] \<and>
   id' taskA = [0x61] \<and>
   (case importYesterday (\<lambda>n. [0x61]) nowsDemo (weekDates dayKey 0) tuesdayState of
      Inl e \<Rightarrow> False
    | Inr st' \<Rightarrow>
        tasksForKey st' (dayKey 1)
          = Tasks [\<lparr>id' = [0x61], text = [0x41], done = False, createdAt = 10\<rparr>,
                   \<lparr>id' = [0x61], text = [0x43], done = False, createdAt = 11\<rparr>])"
proof -
  have i: "id' taskA = [0x61]" by (simp add: taskA_def)
  have r: "importYesterday (\<lambda>n. [0x61]) nowsDemo (weekDates dayKey 0) tuesdayState =
     Inr (setTasksForKey (dayKey 1)
            (Tasks [\<lparr>id' = [0x61], text = [0x41], done = False, createdAt = 10\<rparr>,
                    \<lparr>id' = [0x61], text = [0x43], done = False, createdAt = 11\<rparr>])
            tuesdayState)"
    by (simp add: importYesterday_def tuesday_keys tuesday_buckets asArray_def
        taskA_def taskB_def taskC_def nowsDemo_def)
  have "case importYesterday (\<lambda>n. [0x61]) nowsDemo (weekDates dayKey 0) tuesdayState of
      Inl e \<Rightarrow> False
    | Inr st' \<Rightarrow>
        tasksForKey st' (dayKey 1)
          = Tasks [\<lparr>id' = [0x61], text = [0x41], done = False, createdAt = 10\<rparr>,
                   \<lparr>id' = [0x61], text = [0x43], done = False, createdAt = 11\<rparr>]"
    unfolding r by (simp add: tasksForKey_def setTasksForKey_def)
  with i tuesday_buckets(1) show ?thesis by blast
qed

theorem importYesterday_clones_unfinished_witness:
  "selectedKey (weekDates dayKey 0) tuesdayState = Inr (dayKey 1) \<and>
   yesterdayKey (weekDates dayKey 0) tuesdayState = Inr (dayKey 0) \<and>
   tasksForKey tuesdayState (dayKey 0) = Tasks [taskA, taskB, taskC] \<and>
   tasksForKey tuesdayState (dayKey 1) = Tasks [] \<and>
   filter (\<lambda>t. \<not> done t) [taskA, taskB, taskC] = [taskA, taskC] \<and>
   distinct (map uidsDemo [0..<2]) \<and>
   set (map uidsDemo [0..<2]) \<inter> set (map id' ([taskA, taskB, taskC] @ [])) = {} \<and>
   (\<exists>st' copies. importYesterday uidsDemo nowsDemo (weekDates dayKey 0) tuesdayState = Inr st' \<and>
      tasksForKey st' (dayKey 1) = Tasks copies \<and>
      length copies = 2 \<and> map text copies = [[0x41], [0x43]] \<and>
      list_all (\<lambda>c. \<not> done c) copies \<and>
      distinct (map id' copies) \<and>
      set (map id' copies) \<inter> set (map id' ([taskA, taskB, taskC] @ [])) = {})"
proof -
  have f: "filter (\<lambda>t. \<not> done t) [taskA, taskB, taskC] = [taskA, taskC]"
    by (simp add: taskA_def taskB_def taskC_def)
  have t: "map text [taskA, taskC] = [[0x41], [0x43]]" by (simp add: taskA_def taskC_def)
  have l: "length [taskA, taskC] = 2" by simp
  have d: "distinct (map uidsDemo [0..<2])" by (simp add: uidsDemo_def upt_rec)
  have j: "set (map uidsDemo [0..<2]) \<inter> set (map id' ([taskA, taskB, taskC] @ [])) = {}"
    by (simp add: uidsDemo_def upt_rec taskA_def taskB_def taskC_def)
  have ne: "[taskA, taskC] \<noteq> []" by simp
  from importYesterday_clones_unfinished [OF tuesday_keys tuesday_buckets, of uidsDemo nowsDemo,
      unfolded f] ne
  obtain st' copies where r:
    "importYesterday uidsDemo nowsDemo (weekDates dayKey 0) tuesdayState = Inr st'"
    "tasksForKey st' (dayKey 1) = Tasks (copies @ [])"
    "length copies = length [taskA, taskC]" "map text copies = map text [taskA, taskC]"
    "list_all (\<lambda>c. \<not> done c) copies"
    "distinct (map id' copies) = distinct (map uidsDemo [0..<length copies])"
    "(set (map id' copies) \<inter> set (map id' ([taskA, taskB, taskC] @ [])) = {})
       = (set (map uidsDemo [0..<length copies]) \<inter> set (map id' ([taskA, taskB, taskC] @ [])) = {})"
    by blast
  from r(3) have n: "length copies = 2" unfolding l .
  from r(4) have x: "map text copies = [[0x41], [0x43]]" unfolding t .
  from r(6) d have 1: "distinct (map id' copies)" unfolding n by blast
  from r(7) j have 2: "set (map id' copies) \<inter> set (map id' ([taskA, taskB, taskC] @ [])) = {}"
    unfolding n by blast
  from r(2) have 3: "tasksForKey st' (dayKey 1) = Tasks copies" by simp
  have e: "\<exists>st' copies. importYesterday uidsDemo nowsDemo (weekDates dayKey 0) tuesdayState = Inr st' \<and>
      tasksForKey st' (dayKey 1) = Tasks copies \<and>
      length copies = 2 \<and> map text copies = [[0x41], [0x43]] \<and>
      list_all (\<lambda>c. \<not> done c) copies \<and>
      distinct (map id' copies) \<and>
      set (map id' copies) \<inter> set (map id' ([taskA, taskB, taskC] @ [])) = {}"
  proof (intro exI conjI)
    show "importYesterday uidsDemo nowsDemo (weekDates dayKey 0) tuesdayState = Inr st'"
      by (rule r(1))
    show "tasksForKey st' (dayKey 1) = Tasks copies" by (rule 3)
    show "length copies = 2" by (rule n)
    show "map text copies = [[0x41], [0x43]]" by (rule x)
    show "list_all (\<lambda>c. \<not> done c) copies" by (rule r(5))
    show "distinct (map id' copies)" by (rule 1)
    show "set (map id' copies) \<inter> set (map id' ([taskA, taskB, taskC] @ [])) = {}" by (rule 2)
  qed
  show ?thesis
    by (intro conjI tuesday_keys tuesday_buckets f d j e)
qed

section \<open>Reordering by drag and drop\<close>

text \<open>
  The arrow function of \<^verbatim>\<open>onDragOver\<close>, had it been applied to the bucket, moves the
  element at \<open>i\<close> to \<open>j\<close>, keeps the others in their order, and is undone by the move
  from \<open>j\<close> to \<open>i\<close>.
\<close>

lemma take_insert: "j \<le> length c \<Longrightarrow> take j (take j c @ x # drop j c) = take j c"
  by simp

lemma drop_insert: "j \<le> length c \<Longrightarrow> drop (Suc j) (take j c @ x # drop j c) = drop j c"
  by simp

lemma nth_insert: "j \<le> length c \<Longrightarrow> (take j c @ x # drop j c) ! j = x"
  by (simp add: nth_append)

lemma take_remove: "i < length xs \<Longrightarrow> take i (take i xs @ drop (Suc i) xs) = take i xs"
  by simp

lemma drop_remove: "i < length xs \<Longrightarrow> drop i (take i xs @ drop (Suc i) xs) = drop (Suc i) xs"
  by simp

lemma dragging_facts:
  "dragItem draggingState = Some 0"
  "selectedKey (weekDates dayKey 0) draggingState = Inr (dayKey 0)"
  "tasksForKey draggingState (dayKey 0) = Tasks [taskA, taskB, taskC]"
  by (simp_all add: draggingState_def onDragStart_def mondayState_def selectedKey_def
      keyAt_def weekDates_unfold tasksForKey_def)


lemma updaterBody_moves:
  assumes "i < length xs" and "j < length xs"
  shows "\<exists>ys. updaterBody i j xs = Some ys \<and> length ys = length xs \<and> ys ! j = xs ! i \<and>
           take j ys @ drop (Suc j) ys = take i xs @ drop (Suc i) xs"
proof -
  let ?c = "take i xs @ drop (Suc i) xs"
  let ?ys = "take j ?c @ xs ! i # drop j ?c"
  have j: "j \<le> length ?c" using assms by simp
  have 1: "updaterBody i j xs = Some ?ys" using assms by (simp add: updaterBody_def Let_def)
  have 2: "length ?ys = length xs" using assms j by simp
  have 3: "?ys ! j = xs ! i" using j by (rule nth_insert)
  have 4: "take j ?ys @ drop (Suc j) ?ys = ?c"
    unfolding take_insert [OF j] drop_insert [OF j] by (rule append_take_drop_id)
  from 1 2 3 4 show ?thesis by blast
qed

lemma updaterBody_inverse:
  assumes "i < length xs" and "j < length xs" and "updaterBody i j xs = Some ys"
  shows "updaterBody j i ys = Some xs"
proof -
  let ?c = "take i xs @ drop (Suc i) xs"
  from updaterBody_moves [OF assms(1,2)] assms(3)
  have l: "length ys = length xs" and n: "ys ! j = xs ! i"
    and c: "take j ys @ drop (Suc j) ys = ?c" by auto
  have "take i ?c @ xs ! i # drop i ?c = xs"
    unfolding take_remove [OF assms(1)] drop_remove [OF assms(1)]
    using assms(1) by (simp add: id_take_nth_drop [symmetric])
  then show ?thesis using assms(2) l n c by (simp add: updaterBody_def Let_def)
qed


lemma updaterBody_example: "updaterBody 0 2 [taskA, taskB, taskC] = Some [taskB, taskC, taskA]"
  by (simp add: updaterBody_def Let_def)

text \<open>
  C3. The reorder of a bucket, as the drag-over handler performs it through
  \<open>setTasksForKey\<close>, should move the element at \<open>i\<close> to \<open>j\<close> and be undone by the move back.
  On the Monday bucket \<open>[taskA, taskB, taskC]\<close>, dragging item 0 over item 2, the function
  that would give \<open>[taskB, taskC, taskA]\<close> is not applied: \<open>onDragOver\<close> binds the key to
  the function itself, \<open>dragItem\<close> keeps its value, and the next render and every handler
  that reads the bucket raise a TypeError.
\<close>

theorem onDragOver_stores_closure:
  "dragItem draggingState = Some 0 \<and>
   tasksForKey draggingState (dayKey 0) = Tasks [taskA, taskB, taskC] \<and>
   updaterBody 0 2 [taskA, taskB, taskC] = Some [taskB, taskC, taskA] \<and>
   (\<exists>st'. onDragOver (weekDates dayKey 0) 2 draggingState = Inr st' \<and>
      tasksForKey st' (dayKey 0) = Updater 0 2 \<and>
      dragItem st' = Some 0 \<and>
      visible (weekDates dayKey 0) st' = Inl TypeError \<and>
      stats (weekDates dayKey 0) st' = Inl TypeError \<and>
      toggleDone (dayKey 0) [0x61] st' = Inl TypeError)"
proof -
  let ?st' = "setTasksForKey (dayKey 0) (Updater 0 2) draggingState"
  have 1: "onDragOver (weekDates dayKey 0) 2 draggingState = Inr ?st'"
    by (simp add: onDragOver_def dragging_facts)
  have 2: "tasksForKey ?st' (dayKey 0) = Updater 0 2"
    by (simp add: tasksForKey_def setTasksForKey_def)
  have 3: "dragItem ?st' = Some 0"
    by (simp add: setTasksForKey_def dragging_facts)
  have k: "selectedKey (weekDates dayKey 0) ?st' = Inr (dayKey 0)"
    using dragging_facts(2) by (simp add: selectedKey_def setTasksForKey_def)
  have 4: "visible (weekDates dayKey 0) ?st' = Inl TypeError"
    by (simp add: visible_def k 2 asArray_def)
  have 5: "stats (weekDates dayKey 0) ?st' = Inl TypeError"
    by (simp add: stats_def k 2 asArray_def)
  have 6: "toggleDone (dayKey 0) [0x61] ?st' = Inl TypeError"
    by (simp add: toggleDone_def 2 asArray_def)
  from 1 2 3 4 5 6 dragging_facts updaterBody_example show ?thesis by blast
qed

section \<open>Toggling a task\<close>

lemma flip_flip:
  "map (\<lambda>t. if id' t = i then t\<lparr>done := \<not> done t\<rparr> else t)
     (map (\<lambda>t. if id' t = i then t\<lparr>done := \<not> done t\<rparr> else t) ts) = ts"
  by (induction ts) auto

lemma bound_of_nonempty:
  assumes "tasksForKey st k = Tasks ts" and "ts \<noteq> []"
  shows "tasksByDate st k = Some (Tasks ts)"
  using assms by (cases "tasksByDate st k") (simp_all add: tasksForKey_def)

lemma rebind_same:
  assumes "tasksByDate st k = Some b"
  shows "setTasksForKey k b (setTasksForKey k b' st) = st"
proof -
  have "(tasksByDate st)(k \<mapsto> b) = tasksByDate st" using assms by (rule map_upd_triv)
  then show ?thesis by (simp add: setTasksForKey_def)
qed

text \<open>
  C4. For a bucket that is an array and an identifier some task of it carries, toggling
  that identifier twice gives back the state the first toggle started from. One toggle
  keeps the order and every identifier, text and time stamp, and negates \<open>done\<close> on the
  tasks with that identifier and on no other.
\<close>

theorem toggleDone_involution:
  assumes "tasksForKey st k = Tasks ts" and "i \<in> set (map id' ts)"
  shows "\<exists>st1 ts1. toggleDone k i st = Inr st1 \<and> toggleDone k i st1 = Inr st \<and>
           tasksForKey st1 k = Tasks ts1 \<and>
           map id' ts1 = map id' ts \<and> map text ts1 = map text ts \<and>
           map createdAt ts1 = map createdAt ts \<and>
           map done ts1 = map (\<lambda>t. if id' t = i then \<not> done t else done t) ts"
proof -
  let ?f = "\<lambda>t. if id' t = i then t\<lparr>done := \<not> done t\<rparr> else t"
  let ?st1 = "setTasksForKey k (Tasks (map ?f ts)) st"
  from assms(2) have "ts \<noteq> []" by auto
  with assms(1) have b: "tasksByDate st k = Some (Tasks ts)" by (rule bound_of_nonempty)
  have 1: "toggleDone k i st = Inr ?st1" using assms(1) by (simp add: toggleDone_def asArray_def)
  have 2: "tasksForKey ?st1 k = Tasks (map ?f ts)"
    by (simp add: tasksForKey_def setTasksForKey_def)
  have "toggleDone k i ?st1 = Inr (setTasksForKey k (Tasks (map ?f (map ?f ts))) ?st1)"
    by (simp add: toggleDone_def 2 asArray_def del: map_map)
  then have "toggleDone k i ?st1 = Inr (setTasksForKey k (Tasks ts) ?st1)"
    by (simp only: flip_flip)
  then have 3: "toggleDone k i ?st1 = Inr st" using b by (simp only: rebind_same)
  have 4: "map id' (map ?f ts) = map id' ts" by (induction ts) auto
  have 5: "map text (map ?f ts) = map text ts" by (induction ts) auto
  have 6: "map createdAt (map ?f ts) = map createdAt ts" by (induction ts) auto
  have 7: "map done (map ?f ts) = map (\<lambda>t. if id' t = i then \<not> done t else done t) ts"
    by (induction ts) auto
  from 1 2 3 4 5 6 7 show ?thesis by blast
qed

lemma monday_bucket: "tasksForKey mondayState (dayKey 0) = Tasks [taskA, taskB, taskC]"
  by (simp add: tasksForKey_def mondayState_def)

theorem toggleDone_involution_witness:
  "tasksForKey mondayState (dayKey 0) = Tasks [taskA, taskB, taskC] \<and>
   [0x62] \<in> set (map id' [taskA, taskB, taskC]) \<and>
   (\<exists>st1. toggleDone (dayKey 0) [0x62] mondayState = Inr st1 \<and>
      toggleDone (dayKey 0) [0x62] st1 = Inr mondayState \<and>
      tasksForKey st1 (dayKey 0) = Tasks [taskA, taskB\<lparr>done := False\<rparr>, taskC])"
proof -
  have m: "[0x62] \<in> set (map id' [taskA, taskB, taskC])" by (simp add: taskB_def)
  from toggleDone_involution [OF monday_bucket m]
  obtain st1 where 1: "toggleDone (dayKey 0) [0x62] mondayState = Inr st1"
    and 2: "toggleDone (dayKey 0) [0x62] st1 = Inr mondayState" by blast
  from 1 have "tasksForKey st1 (dayKey 0) = Tasks [taskA, taskB\<lparr>done := False\<rparr>, taskC]"
    unfolding toggleDone_def monday_bucket asArray_def
    by (auto simp: tasksForKey_def setTasksForKey_def taskA_def taskB_def taskC_def)
  with 1 2 monday_bucket m show ?thesis by blast
qed

section \<open>Identifiers within a bucket\<close>

lemma tasksForKey_set:
  "tasksForKey (setTasksForKey k b st) k' = (if k' = k then b else tasksForKey st k')"
  by (simp add: tasksForKey_def setTasksForKey_def)

lemma tasksForKey_query [simp]: "tasksForKey (st\<lparr>query := q\<rparr>) k = tasksForKey st k"
  by (simp add: tasksForKey_def)

lemma addTask_cases:
  assumes "addTask u n txt k st = Inr st'"
  shows "st' = st \<or>
         (\<exists>ts. tasksForKey st k = Tasks ts \<and> trim txt \<noteq> [] \<and>
            st' = (setTasksForKey k
                     (Tasks (\<lparr>id' = u, text = trim txt, done = False, createdAt = n\<rparr> # ts)) st)
                  \<lparr>query := []\<rparr>)"
  using assms
  by (cases "tasksForKey st k") (auto simp: addTask_def asArray_def Let_def split: if_splits)

lemma importYesterday_cases:
  assumes "importYesterday uids nows wd st = Inr st'"
  shows "st' = st \<or>
         (\<exists>sk yk src dest. selectedKey wd st = Inr sk \<and> yesterdayKey wd st = Inr yk \<and>
            tasksForKey st yk = Tasks src \<and> tasksForKey st sk = Tasks dest \<and>
            filter (\<lambda>t. \<not> done t) src \<noteq> [] \<and>
            st' = setTasksForKey sk
                    (Tasks (map (\<lambda>(n, f). \<lparr>id' = uids n, text = text f, done = False,
                                           createdAt = nows n\<rparr>)
                              (enumerate 0 (filter (\<lambda>t. \<not> done t) src)) @ dest)) st)"
proof -
  from assms obtain sk where sk: "selectedKey wd st = Inr sk"
    by (cases "selectedKey wd st") (simp_all add: importYesterday_def)
  from assms sk obtain yk where yk: "yesterdayKey wd st = Inr yk"
    by (cases "yesterdayKey wd st") (simp_all add: importYesterday_def)
  from assms sk yk obtain src where src: "tasksForKey st yk = Tasks src"
    by (cases "tasksForKey st yk") (simp_all add: importYesterday_def asArray_def)
  show ?thesis
  proof (cases "filter (\<lambda>t. \<not> done t) src = []")
    case True
    with assms sk yk src show ?thesis by (simp add: importYesterday_def asArray_def)
  next
    case False
    with assms sk yk src obtain dest where "tasksForKey st sk = Tasks dest"
      by (cases "tasksForKey st sk") (simp_all add: importYesterday_def asArray_def Let_def)
    with assms sk yk src False show ?thesis
      by (simp add: importYesterday_def asArray_def Let_def)
  qed
qed

text \<open>
  C5, amended. If in every bucket the identifiers are pairwise distinct, they still are
  after \<open>addTask\<close> when the identifier drawn is not in the target bucket, and after
  \<open>importYesterday\<close> when the identifiers drawn for the clones are pairwise distinct and none
  is in the selected bucket.
\<close>

theorem fresh_ids_keep_buckets_unique:
  assumes "\<forall>k. bucketIdsUnique (tasksForKey st k)"
  shows "(tasksForKey st k = Tasks ts \<and> u \<notin> set (map id' ts) \<and>
            addTask u n txt k st = Inr st'
          \<longrightarrow> (\<forall>k'. bucketIdsUnique (tasksForKey st' k'))) \<and>
         (selectedKey wd st = Inr sk \<and> yesterdayKey wd st = Inr yk \<and>
            tasksForKey st yk = Tasks src \<and> tasksForKey st sk = Tasks dest \<and>
            distinct (map uids [0..<length (filter (\<lambda>t. \<not> done t) src)]) \<and>
            set (map uids [0..<length (filter (\<lambda>t. \<not> done t) src)]) \<inter> set (map id' dest) = {} \<and>
            importYesterday uids nows wd st = Inr st''
          \<longrightarrow> (\<forall>k'. bucketIdsUnique (tasksForKey st'' k')))"
proof (intro conjI impI allI)
  fix k'
  assume h: "tasksForKey st k = Tasks ts \<and> u \<notin> set (map id' ts) \<and> addTask u n txt k st = Inr st'"
  from assms have "bucketIdsUnique (tasksForKey st k)" by blast
  with h have d: "distinct (map id' ts)" by (simp add: bucketIdsUnique_def)
  from h addTask_cases [of u n "txt" k st st']
  consider "st' = st"
    | "st' = (setTasksForKey k
               (Tasks (\<lparr>id' = u, text = trim txt, done = False, createdAt = n\<rparr> # ts)) st)
             \<lparr>query := []\<rparr>"
    by auto
  then show "bucketIdsUnique (tasksForKey st' k')"
  proof cases
    case 1
    with assms show ?thesis by simp
  next
    case 2
    with assms h d show ?thesis by (simp add: tasksForKey_set bucketIdsUnique_def)
  qed
next
  fix k'
  let ?from = "filter (\<lambda>t. \<not> done t) src"
  let ?copies = "map (\<lambda>(n, f). \<lparr>id' = uids n, text = text f, done = False,
                                  createdAt = nows n\<rparr>) (enumerate 0 ?from)"
  assume h: "selectedKey wd st = Inr sk \<and> yesterdayKey wd st = Inr yk \<and>
            tasksForKey st yk = Tasks src \<and> tasksForKey st sk = Tasks dest \<and>
            distinct (map uids [0..<length ?from]) \<and>
            set (map uids [0..<length ?from]) \<inter> set (map id' dest) = {} \<and>
            importYesterday uids nows wd st = Inr st''"
  from assms have "bucketIdsUnique (tasksForKey st sk)" by blast
  with h have d: "distinct (map id' dest)" by (simp add: bucketIdsUnique_def)
  have ids: "map id' ?copies = map uids [0..<length ?from]"
    using clones_id [of uids nows 0 ?from] by simp
  from h importYesterday_cases [of uids nows wd st st'']
  consider "st'' = st" | "st'' = setTasksForKey sk (Tasks (?copies @ dest)) st"
    by auto
  then show "bucketIdsUnique (tasksForKey st'' k')"
  proof cases
    case 1
    with assms show ?thesis by simp
  next
    case 2
    have "distinct (map id' (?copies @ dest))"
      unfolding map_append ids using h d by (simp only: distinct_append)
    with 2 assms show ?thesis by (simp add: tasksForKey_set bucketIdsUnique_def)
  qed
qed


lemma initial_unique: "\<forall>k. bucketIdsUnique (tasksForKey (initialState g) k)"
  by (simp add: initialState_def tasksForKey_def bucketIdsUnique_def)

lemma monday_unique: "\<forall>k. bucketIdsUnique (tasksForKey mondayState k)"
  by (simp add: tasksForKey_def mondayState_def bucketIdsUnique_def taskA_def taskB_def taskC_def)

lemma tuesday_unique: "\<forall>k. bucketIdsUnique (tasksForKey tuesdayState k)"
  by (simp add: tasksForKey_def tuesdayState_def mondayState_def bucketIdsUnique_def
      taskA_def taskB_def taskC_def)

lemma monday_add:
  "trim [0x44] = [0x44]"
  "addTask u n [0x44] (dayKey 0) mondayState =
     Inr ((setTasksForKey (dayKey 0)
            (Tasks [\<lparr>id' = u, text = [0x44], done = False, createdAt = n\<rparr>, taskA, taskB, taskC])
            mondayState)\<lparr>query := []\<rparr>)"
proof -
  show t: "trim [0x44] = [0x44]" by (simp add: trim_def isWhiteSpace_def)
  show "addTask u n [0x44] (dayKey 0) mondayState =
     Inr ((setTasksForKey (dayKey 0)
            (Tasks [\<lparr>id' = u, text = [0x44], done = False, createdAt = n\<rparr>, taskA, taskB, taskC])
            mondayState)\<lparr>query := []\<rparr>)"
    by (simp add: addTask_def t monday_bucket asArray_def)
qed

lemma tuesday_unfinished: "filter (\<lambda>t. \<not> done t) [taskA, taskB, taskC] = [taskA, taskC]"
  by (simp add: taskA_def taskB_def taskC_def)

lemma tuesday_import:
  "importYesterday uids nows (weekDates dayKey 0) tuesdayState =
     Inr (setTasksForKey (dayKey 1)
            (Tasks [\<lparr>id' = uids 0, text = [0x41], done = False, createdAt = nows 0\<rparr>,
                    \<lparr>id' = uids 1, text = [0x43], done = False, createdAt = nows 1\<rparr>])
            tuesdayState)"
  by (simp add: importYesterday_def tuesday_keys tuesday_buckets asArray_def
      taskA_def taskB_def taskC_def)

text \<open>
  C5, as stated, fails: \<^verbatim>\<open>uid()\<close> is seven characters of a random number and nothing
  compares its result with the identifiers in use. Adding to the Monday bucket with a
  draw equal to the identifier of \<open>taskA\<close>, or importing its two unfinished tasks with
  two equal draws, gives a bucket in which two tasks share an identifier.
\<close>

theorem colliding_uid_counterexample:
  "bucketIdsUnique (tasksForKey mondayState (dayKey 0)) \<and>
   (case addTask [0x61] 4 [0x44] (dayKey 0) mondayState of
      Inl e \<Rightarrow> False
    | Inr st' \<Rightarrow> \<not> bucketIdsUnique (tasksForKey st' (dayKey 0))) \<and>
   bucketIdsUnique (tasksForKey tuesdayState (dayKey 1)) \<and>
   (case importYesterday (\<lambda>n. [0x75]) nowsDemo (weekDates dayKey 0) tuesdayState of
      Inl e \<Rightarrow> False
    | Inr st' \<Rightarrow> \<not> bucketIdsUnique (tasksForKey st' (dayKey 1)))"
proof -
  have 1: "bucketIdsUnique (tasksForKey mondayState (dayKey 0))" using monday_unique by blast
  have 2: "bucketIdsUnique (tasksForKey tuesdayState (dayKey 1))" using tuesday_unique by blast
  have 3: "case addTask [0x61] 4 [0x44] (dayKey 0) mondayState of
      Inl e \<Rightarrow> False
    | Inr st' \<Rightarrow> \<not> bucketIdsUnique (tasksForKey st' (dayKey 0))"
    by (simp add: monday_add tasksForKey_set bucketIdsUnique_def taskA_def)
  have 4: "case importYesterday (\<lambda>n. [0x75]) nowsDemo (weekDates dayKey 0) tuesdayState of
      Inl e \<Rightarrow> False
    | Inr st' \<Rightarrow> \<not> bucketIdsUnique (tasksForKey st' (dayKey 1))"
    by (simp add: tuesday_import tasksForKey_set bucketIdsUnique_def)
  from 1 2 3 4 show ?thesis by blast
qed

theorem fresh_ids_keep_buckets_unique_witness:
  "(\<forall>k. bucketIdsUnique (tasksForKey mondayState k)) \<and>
   tasksForKey mondayState (dayKey 0) = Tasks [taskA, taskB, taskC] \<and>
   [0x64] \<notin> set (map id' [taskA, taskB, taskC]) \<and>
   (\<exists>st'. addTask [0x64] 4 [0x44] (dayKey 0) mondayState = Inr st' \<and>
      (\<forall>k'. bucketIdsUnique (tasksForKey st' k'))) \<and>
   (\<forall>k. bucketIdsUnique (tasksForKey tuesdayState k)) \<and>
   selectedKey (weekDates dayKey 0) tuesdayState = Inr (dayKey 1) \<and>
   yesterdayKey (weekDates dayKey 0) tuesdayState = Inr (dayKey 0) \<and>
   tasksForKey tuesdayState (dayKey 0) = Tasks [taskA, taskB, taskC] \<and>
   tasksForKey tuesdayState (dayKey 1) = Tasks [] \<and>
   distinct (map uidsDemo [0..<length (filter (\<lambda>t. \<not> done t) [taskA, taskB, taskC])]) \<and>
   (\<exists>st''. importYesterday uidsDemo nowsDemo (weekDates dayKey 0) tuesdayState = Inr st'' \<and>
      (\<forall>k'. bucketIdsUnique (tasksForKey st'' k')))"
proof -
  have a: "[0x64] \<notin> set (map id' [taskA, taskB, taskC])"
    by (simp add: taskA_def taskB_def taskC_def)
  have d: "distinct (map uidsDemo [0..<length (filter (\<lambda>t. \<not> done t) [taskA, taskB, taskC])])"
    unfolding tuesday_unfinished by (simp add: uidsDemo_def upt_rec)
  have e: "set (map uidsDemo [0..<length (filter (\<lambda>t. \<not> done t) [taskA, taskB, taskC])])
             \<inter> set (map id' []) = {}"
    by simp
  have "\<forall>k'. bucketIdsUnique (tasksForKey
          ((setTasksForKey (dayKey 0)
            (Tasks [\<lparr>id' = [0x64], text = [0x44], done = False, createdAt = 4\<rparr>, taskA, taskB, taskC])
            mondayState)\<lparr>query := []\<rparr>) k')"
    using fresh_ids_keep_buckets_unique [OF monday_unique, of "dayKey 0" "[taskA, taskB, taskC]"
        "[0x64]" 4 "[0x44]"] monday_bucket a monday_add(2) by blast
  then have 1: "\<exists>st'. addTask [0x64] 4 [0x44] (dayKey 0) mondayState = Inr st' \<and>
      (\<forall>k'. bucketIdsUnique (tasksForKey st' k'))"
    using monday_add(2) by blast
  have "\<forall>k'. bucketIdsUnique (tasksForKey
          (setTasksForKey (dayKey 1)
            (Tasks [\<lparr>id' = uidsDemo 0, text = [0x41], done = False, createdAt = nowsDemo 0\<rparr>,
                    \<lparr>id' = uidsDemo 1, text = [0x43], done = False, createdAt = nowsDemo 1\<rparr>])
            tuesdayState) k')"
    using fresh_ids_keep_buckets_unique [OF tuesday_unique, of _ _ _ _ _ _
        "weekDates dayKey 0" "dayKey 1" "dayKey 0" "[taskA, taskB, taskC]" "[]" uidsDemo nowsDemo]
      tuesday_keys tuesday_buckets d e tuesday_import by blast
  then have 2: "\<exists>st''. importYesterday uidsDemo nowsDemo (weekDates dayKey 0) tuesdayState = Inr st'' \<and>
      (\<forall>k'. bucketIdsUnique (tasksForKey st'' k'))"
    using tuesday_import by blast
  from 1 2 a d monday_unique tuesday_unique monday_bucket tuesday_keys tuesday_buckets
  show ?thesis by blast
qed

section \<open>Stored texts\<close>

lemma trimmed_set:
  assumes "allTextsTrimmed st" and "bucketTextsTrimmed b"
  shows "allTextsTrimmed (setTasksForKey k b st)"
  using assms by (simp add: tasksForKey_set)

lemma trimmed_array:
  assumes "allTextsTrimmed st" and "tasksForKey st k = Tasks ts"
  shows "list_all (\<lambda>t. text t \<noteq> [] \<and> trim (text t) = text t) ts"
proof -
  from assms(1) have "bucketTextsTrimmed (tasksForKey st k)" by blast
  with assms(2) show ?thesis by (simp add: bucketTextsTrimmed_def)
qed

lemma trimmed_addTask:
  assumes "allTextsTrimmed st" and "addTask u n txt k st = Inr st'"
  shows "allTextsTrimmed st'"
proof -
  from addTask_cases [OF assms(2)]
  consider "st' = st"
    | ts where "tasksForKey st k = Tasks ts" "trim txt \<noteq> []"
        "st' = (setTasksForKey k
                 (Tasks (\<lparr>id' = u, text = trim txt, done = False, createdAt = n\<rparr> # ts)) st)
               \<lparr>query := []\<rparr>"
    by blast
  then show ?thesis
  proof cases
    case 1
    with assms(1) show ?thesis by simp
  next
    case 2
    from trimmed_array [OF assms(1) 2(1)] 2(2)
    have "bucketTextsTrimmed
            (Tasks (\<lparr>id' = u, text = trim txt, done = False, createdAt = n\<rparr> # ts))"
      by (simp add: bucketTextsTrimmed_def trim_idem)
    from trimmed_set [OF assms(1) this] 2(3) show ?thesis by simp
  qed
qed

lemma trimmed_editTask:
  assumes "allTextsTrimmed st" and "newText \<noteq> []" and "trim newText = newText"
    and "editTask k i newText st = Inr st'"
  shows "allTextsTrimmed st'"
proof -
  from assms(4) obtain ts where ts: "tasksForKey st k = Tasks ts"
    by (cases "tasksForKey st k") (simp_all add: editTask_def asArray_def)
  let ?ts' = "map (\<lambda>t. if id' t = i then t\<lparr>text := newText\<rparr> else t) ts"
  from assms(4) ts have st': "st' = setTasksForKey k (Tasks ?ts') st"
    by (simp add: editTask_def asArray_def)
  from trimmed_array [OF assms(1) ts] assms(2,3)
  have "bucketTextsTrimmed (Tasks ?ts')"
    by (induction ts) (simp_all add: bucketTextsTrimmed_def)
  from trimmed_set [OF assms(1) this] st' show ?thesis by simp
qed

lemma trimmed_save:
  assumes "allTextsTrimmed st" and "save txt0 (editTask k i) (ed, st) = Inr (ed', st')"
  shows "allTextsTrimmed st'"
proof (cases "trim (value ed) = []")
  case True
  with assms show ?thesis by (simp add: save_def Let_def)
next
  case False
  with assms(2) have "editTask k i (trim (value ed)) st = Inr st'"
    by (cases "editTask k i (trim (value ed)) st") (simp_all add: save_def Let_def)
  from trimmed_editTask [OF assms(1) False trim_idem this] show ?thesis .
qed

lemma trimmed_toggleDone:
  assumes "allTextsTrimmed st" and "toggleDone k i st = Inr st'"
  shows "allTextsTrimmed st'"
proof -
  from assms(2) obtain ts where ts: "tasksForKey st k = Tasks ts"
    by (cases "tasksForKey st k") (simp_all add: toggleDone_def asArray_def)
  let ?ts' = "map (\<lambda>t. if id' t = i then t\<lparr>done := \<not> done t\<rparr> else t) ts"
  from assms(2) ts have st': "st' = setTasksForKey k (Tasks ?ts') st"
    by (simp add: toggleDone_def asArray_def)
  from trimmed_array [OF assms(1) ts]
  have "bucketTextsTrimmed (Tasks ?ts')"
    by (induction ts) (simp_all add: bucketTextsTrimmed_def)
  from trimmed_set [OF assms(1) this] st' show ?thesis by simp
qed

lemma trimmed_filter:
  assumes "allTextsTrimmed st" and "tasksForKey st k = Tasks ts"
  shows "allTextsTrimmed (setTasksForKey k (Tasks (filter P ts)) st)"
proof -
  from trimmed_array [OF assms]
  have "bucketTextsTrimmed (Tasks (filter P ts))"
    by (induction ts) (simp_all add: bucketTextsTrimmed_def)
  from trimmed_set [OF assms(1) this] show ?thesis .
qed

lemma trimmed_deleteTask:
  assumes "allTextsTrimmed st" and "deleteTask k i st = Inr st'"
  shows "allTextsTrimmed st'"
proof -
  from assms(2) obtain ts where ts: "tasksForKey st k = Tasks ts"
    by (cases "tasksForKey st k") (simp_all add: deleteTask_def asArray_def)
  with assms(2) have "st' = setTasksForKey k (Tasks (filter (\<lambda>t. id' t \<noteq> i) ts)) st"
    by (simp add: deleteTask_def asArray_def)
  with trimmed_filter [OF assms(1) ts] show ?thesis by simp
qed

lemma trimmed_clearCompleted:
  assumes "allTextsTrimmed st" and "clearCompleted k st = Inr st'"
  shows "allTextsTrimmed st'"
proof -
  from assms(2) obtain ts where ts: "tasksForKey st k = Tasks ts"
    by (cases "tasksForKey st k") (simp_all add: clearCompleted_def asArray_def)
  with assms(2) have "st' = setTasksForKey k (Tasks (filter (\<lambda>t. \<not> done t) ts)) st"
    by (simp add: clearCompleted_def asArray_def)
  with trimmed_filter [OF assms(1) ts] show ?thesis by simp
qed

lemma trimmed_clearAll:
  assumes "allTextsTrimmed st" and "clearAll k st = Inr st'"
  shows "allTextsTrimmed st'"
proof -
  have "bucketTextsTrimmed (Tasks [])" by (simp add: bucketTextsTrimmed_def)
  from trimmed_set [OF assms(1) this, of k] assms(2) show ?thesis by (auto simp: clearAll_def)
qed

lemma clones_trimmed:
  assumes "list_all (\<lambda>t. text t \<noteq> [] \<and> trim (text t) = text t) xs"
  shows "list_all (\<lambda>t. text t \<noteq> [] \<and> trim (text t) = text t)
           (map (\<lambda>(n, f). \<lparr>id' = uids n, text = text f, done = False, createdAt = nows n\<rparr>)
              (enumerate m xs))"
  using assms by (induction xs arbitrary: m) simp_all

lemma trimmed_importYesterday:
  assumes "allTextsTrimmed st" and "importYesterday uids nows wd st = Inr st'"
  shows "allTextsTrimmed st'"
proof -
  from importYesterday_cases [OF assms(2)]
  consider "st' = st"
    | sk yk src dest where "tasksForKey st yk = Tasks src" "tasksForKey st sk = Tasks dest"
        "st' = setTasksForKey sk
                 (Tasks (map (\<lambda>(n, f). \<lparr>id' = uids n, text = text f, done = False,
                                        createdAt = nows n\<rparr>)
                           (enumerate 0 (filter (\<lambda>t. \<not> done t) src)) @ dest)) st"
    by blast
  then show ?thesis
  proof cases
    case 1
    with assms(1) show ?thesis by simp
  next
    case 2
    from trimmed_array [OF assms(1) 2(1)]
    have "list_all (\<lambda>t. text t \<noteq> [] \<and> trim (text t) = text t) (filter (\<lambda>t. \<not> done t) src)"
      by (induction src) simp_all
    from clones_trimmed [OF this] trimmed_array [OF assms(1) 2(2)]
    have "bucketTextsTrimmed
            (Tasks (map (\<lambda>(n, f). \<lparr>id' = uids n, text = text f, done = False,
                                   createdAt = nows n\<rparr>)
                      (enumerate 0 (filter (\<lambda>t. \<not> done t) src)) @ dest))"
      by (simp add: bucketTextsTrimmed_def)
    from trimmed_set [OF assms(1) this] 2(3) show ?thesis by simp
  qed
qed

text \<open>
  C6. From a state in which every task text is a non-empty trimmed string (so none is
  empty or made of white space only), each of \<open>addTask\<close>, the editor's \<open>save\<close> through
  \<open>editTask\<close>, \<open>toggleDone\<close>, \<open>deleteTask\<close>, \<open>clearCompleted\<close>, \<open>clearAll\<close> and
  \<open>importYesterday\<close> leads to a state of which the same holds: \<open>addTask\<close> and \<open>save\<close> trim
  what they are given and write nothing when nothing is left, the others write no new
  text.
\<close>

theorem stored_texts_stay_trimmed:
  assumes "allTextsTrimmed st"
  shows "(addTask u n txt k st = Inr st' \<longrightarrow> allTextsTrimmed st') \<and>
         (save txt0 (editTask k i) (ed, st) = Inr (ed', st') \<longrightarrow> allTextsTrimmed st') \<and>
         (toggleDone k i st = Inr st' \<longrightarrow> allTextsTrimmed st') \<and>
         (deleteTask k i st = Inr st' \<longrightarrow> allTextsTrimmed st') \<and>
         (clearCompleted k st = Inr st' \<longrightarrow> allTextsTrimmed st') \<and>
         (clearAll k st = Inr st' \<longrightarrow> allTextsTrimmed st') \<and>
         (importYesterday uids nows wd st = Inr st' \<longrightarrow> allTextsTrimmed st')"
  using assms trimmed_addTask [of st u n "txt" k st'] trimmed_save [of st txt0 k i ed ed' st']
    trimmed_toggleDone [of st k i st'] trimmed_deleteTask [of st k i st']
    trimmed_clearCompleted [of st k st'] trimmed_clearAll [of st k st']
    trimmed_importYesterday [of st uids nows wd st']
  by blast


lemma handlers_return:
  assumes "tasksForKey st k = Tasks ts"
  shows "\<exists>st'. addTask u n txt k st = Inr st'"
    and "\<exists>st'. toggleDone k i st = Inr st'"
    and "\<exists>st'. deleteTask k i st = Inr st'"
    and "\<exists>st'. editTask k i newText st = Inr st'"
    and "\<exists>st'. clearCompleted k st = Inr st'"
    and "\<exists>st'. clearAll k st = Inr st'"
    and "\<exists>es. save txt0 (editTask k i) (ed, st) = Inr es"
  using assms
  by (simp_all add: addTask_def toggleDone_def deleteTask_def editTask_def clearCompleted_def
      clearAll_def save_def asArray_def Let_def)

lemma initial_trimmed: "allTextsTrimmed (initialState g)"
  by (simp add: initialState_def tasksForKey_def bucketTextsTrimmed_def)

lemma monday_trimmed: "allTextsTrimmed mondayState"
  by (simp add: tasksForKey_def mondayState_def bucketTextsTrimmed_def taskA_def taskB_def
      taskC_def trim_def isWhiteSpace_def)

lemma tuesday_trimmed: "allTextsTrimmed tuesdayState"
  using monday_trimmed by (simp add: tasksForKey_def tuesdayState_def)

theorem stored_texts_stay_trimmed_witness:
  "allTextsTrimmed mondayState \<and>
   (\<exists>st'. addTask [0x64] 4 [0x20, 0x44, 0x20] (dayKey 0) mondayState = Inr st' \<and>
      allTextsTrimmed st') \<and>
   (\<exists>ed' st'. save [0x41] (editTask (dayKey 0) [0x61]) (editorDemo, mondayState) = Inr (ed', st') \<and>
      allTextsTrimmed st') \<and>
   (\<exists>st'. toggleDone (dayKey 0) [0x61] mondayState = Inr st' \<and> allTextsTrimmed st') \<and>
   (\<exists>st'. deleteTask (dayKey 0) [0x61] mondayState = Inr st' \<and> allTextsTrimmed st') \<and>
   (\<exists>st'. clearCompleted (dayKey 0) mondayState = Inr st' \<and> allTextsTrimmed st') \<and>
   (\<exists>st'. clearAll (dayKey 0) mondayState = Inr st' \<and> allTextsTrimmed st') \<and>
   allTextsTrimmed tuesdayState \<and>
   (\<exists>st'. importYesterday uidsDemo nowsDemo (weekDates dayKey 0) tuesdayState = Inr st' \<and>
      allTextsTrimmed st')"
proof -
  note r = handlers_return [OF monday_bucket]
  note t = stored_texts_stay_trimmed [OF monday_trimmed]
  have 1: "\<exists>st'. addTask [0x64] 4 [0x20, 0x44, 0x20] (dayKey 0) mondayState = Inr st' \<and>
      allTextsTrimmed st'"
    using r(1) [of "[0x64]" 4 "[0x20, 0x44, 0x20]"] t [of "[0x64]" 4 "[0x20, 0x44, 0x20]" "dayKey 0"]
    by blast
  have 2: "\<exists>ed' st'. save [0x41] (editTask (dayKey 0) [0x61]) (editorDemo, mondayState) = Inr (ed', st') \<and>
      allTextsTrimmed st'"
    using r(7) [of "[0x41]" "[0x61]" editorDemo] t [of _ _ _ "dayKey 0" _ "[0x41]" "[0x61]" editorDemo]
    by (metis surj_pair)
  have 3: "\<exists>st'. toggleDone (dayKey 0) [0x61] mondayState = Inr st' \<and> allTextsTrimmed st'"
    using r(2) [of "[0x61]"] t [of _ _ _ "dayKey 0" _ _ "[0x61]"] by blast
  have 4: "\<exists>st'. deleteTask (dayKey 0) [0x61] mondayState = Inr st' \<and> allTextsTrimmed st'"
    using r(3) [of "[0x61]"] t [of _ _ _ "dayKey 0" _ _ "[0x61]"] by blast
  have 5: "\<exists>st'. clearCompleted (dayKey 0) mondayState = Inr st' \<and> allTextsTrimmed st'"
    using r(5) t [of _ _ _ "dayKey 0"] by blast
  have 6: "\<exists>st'. clearAll (dayKey 0) mondayState = Inr st' \<and> allTextsTrimmed st'"
    using r(6) t [of _ _ _ "dayKey 0"] by blast
  have 7: "\<exists>st'. importYesterday uidsDemo nowsDemo (weekDates dayKey 0) tuesdayState = Inr st' \<and>
      allTextsTrimmed st'"
    using tuesday_import [of uidsDemo nowsDemo]
      stored_texts_stay_trimmed [OF tuesday_trimmed, of _ _ _ _ _ _ _ _ _ uidsDemo nowsDemo
        "weekDates dayKey 0"]
    by blast
  from 1 2 3 4 5 6 7 monday_trimmed tuesday_trimmed show ?thesis by blast
qed

section \<open>Hydration from the persisted blob\<close>

text \<open>
  C7, amended. \<open>load\<close> never raises. When the blob is absent or empty, the cell keeps its
  value (the empty mapping it is initialised with) and nothing is logged; when reading the
  blob or parsing it raises, the cell keeps its value and the error is logged. When the
  blob parses, the cell takes the parsed value as it is, mapping or not.
\<close>

theorem load_recovers_read_failures:
  "(\<exists>v msgs. load g p cur = Inr (v, msgs)) \<and>
   (g = Inr None \<or> g = Inr (Some []) \<longrightarrow> load g p cur = Inr (cur, [])) \<and>
   (g = Inl e \<longrightarrow> load g p cur = Inr (cur, [e])) \<and>
   (g = Inr (Some raw) \<and> raw \<noteq> [] \<and> p raw = Inl e \<longrightarrow> load g p cur = Inr (cur, [e])) \<and>
   (g = Inr (Some raw) \<and> raw \<noteq> [] \<and> p raw = Inr v \<longrightarrow> load g p cur = Inr (v, []))"
proof -
  have 1: "\<exists>v msgs. load g p cur = Inr (v, msgs)"
    by (cases "loadTry g p cur") (simp_all add: load_def)
  have 2: "g = Inr None \<or> g = Inr (Some []) \<longrightarrow> load g p cur = Inr (cur, [])"
    by (auto simp: load_def loadTry_def)
  have 3: "g = Inl e \<longrightarrow> load g p cur = Inr (cur, [e])"
    by (simp add: load_def loadTry_def)
  have 4: "g = Inr (Some raw) \<and> raw \<noteq> [] \<and> p raw = Inl e \<longrightarrow> load g p cur = Inr (cur, [e])"
    by (simp add: load_def loadTry_def)
  have 5: "g = Inr (Some raw) \<and> raw \<noteq> [] \<and> p raw = Inr v \<longrightarrow> load g p cur = Inr (v, [])"
    by (simp add: load_def loadTry_def)
  from 1 2 3 4 5 show ?thesis by blast
qed

text \<open>
  C7, as stated, fails: the blob \<^verbatim>\<open>null\<close> is valid JSON, so nothing is caught and nothing
  is logged, and the state it leaves is \<^verbatim>\<open>null\<close>, which is no mapping.
\<close>

theorem load_null_counterexample:
  "parseDemo nullText = Inr JNull \<and>
   load (Inr (Some nullText)) parseDemo (JObject []) = Inr (JNull, []) \<and>
   \<not> isObject JNull"
  by (simp add: load_def loadTry_def parseDemo_def nullText_def)

theorem load_recovers_read_failures_witness:
  "load (Inr None) parseDemo (JObject []) = Inr (JObject [], []) \<and>
   load (Inr (Some [])) parseDemo (JObject []) = Inr (JObject [], []) \<and>
   load (Inl SecurityError) parseDemo (JObject []) = Inr (JObject [], [SecurityError]) \<and>
   parseDemo [0x7B] = Inl SyntaxError \<and>
   load (Inr (Some [0x7B])) parseDemo (JObject []) = Inr (JObject [], [SyntaxError]) \<and>
   parseDemo [0x7B, 0x7D] = Inr (JObject []) \<and>
   load (Inr (Some [0x7B, 0x7D])) parseDemo (JObject []) = Inr (JObject [], []) \<and>
   parseDemo nullText = Inr JNull \<and>
   load (Inr (Some nullText)) parseDemo (JObject []) = Inr (JNull, [])"
proof -
  have p1: "parseDemo [0x7B] = Inl SyntaxError" by (simp add: parseDemo_def nullText_def)
  have p2: "parseDemo [0x7B, 0x7D] = Inr (JObject [])" by (simp add: parseDemo_def nullText_def)
  have p3: "parseDemo nullText = Inr JNull" by (simp add: parseDemo_def)
  have n: "nullText \<noteq> []" by (simp add: nullText_def)
  have 1: "load (Inr None) parseDemo (JObject []) = Inr (JObject [], [])"
    using load_recovers_read_failures [of "Inr None" parseDemo "JObject []"] by blast
  have 2: "load (Inr (Some [])) parseDemo (JObject []) = Inr (JObject [], [])"
    using load_recovers_read_failures [of "Inr (Some [])" parseDemo "JObject []"] by blast
  have 3: "load (Inl SecurityError) parseDemo (JObject []) = Inr (JObject [], [SecurityError])"
    using load_recovers_read_failures [of "Inl SecurityError" parseDemo "JObject []" SecurityError]
    by blast
  have 4: "load (Inr (Some [0x7B])) parseDemo (JObject []) = Inr (JObject [], [SyntaxError])"
    using load_recovers_read_failures [of "Inr (Some [0x7B])" parseDemo "JObject []" SyntaxError
        "[0x7B]"] p1 by blast
  have 5: "load (Inr (Some [0x7B, 0x7D])) parseDemo (JObject []) = Inr (JObject [], [])"
    using load_recovers_read_failures [of "Inr (Some [0x7B, 0x7D])" parseDemo "JObject []" _
        "[0x7B, 0x7D]" "JObject []"] p2 by blast
  have 6: "load (Inr (Some nullText)) parseDemo (JObject []) = Inr (JNull, [])"
    using load_recovers_read_failures [of "Inr (Some nullText)" parseDemo "JObject []" _
        nullText JNull] p3 n by blast
  from 1 2 3 4 5 6 p1 p2 p3 show ?thesis by blast
qed

section \<open>What a write leaves alone\<close>

lemma week_keys_differ:
  assumes "length wd = 7" and "distinct (map key wd)" and "selectedDayIndex st < 7"
  shows "\<exists>sk yk. selectedKey wd st = Inr sk \<and> yesterdayKey wd st = Inr yk \<and> yk \<noteq> sk"
proof -
  let ?d = "selectedDayIndex st"
  let ?y = "(?d + 6) mod 7"
  have y: "?y < 7" by simp
  have ne: "?y \<noteq> ?d" using assms(3) by presburger
  have "map key wd ! ?y \<noteq> map key wd ! ?d"
    using assms(1,2,3) y ne by (simp add: nth_eq_iff_index_eq del: nth_map)
  then have "key (wd ! ?y) \<noteq> key (wd ! ?d)" using assms(1,3) y by simp
  then show ?thesis using assms(1,3) y
    by (simp add: selectedKey_def yesterdayKey_def keyAt_def)
qed

lemma importYesterday_frame:
  assumes "selectedKey wd st = Inr sk" and "importYesterday uids nows wd st = Inr st'"
    and "k' \<noteq> sk"
  shows "tasksByDate st' k' = tasksByDate st k'"
  using importYesterday_cases [OF assms(2)] assms(1,3)
  by (auto simp: setTasksForKey_def)

text \<open>
  C8. \<open>setTasksForKey k arr\<close> gives a mapping that binds \<open>k\<close> to \<open>arr\<close> and every other key
  to what it was bound to. \<open>importYesterday\<close>, on a week of seven distinct keys, changes
  at most the binding of the selected key: yesterday's key is another key, and its bucket,
  like every bucket but the selected one, is as before.
\<close>

theorem setTasksForKey_frame:
  "tasksByDate (setTasksForKey k arr st) k = Some arr \<and>
   (\<forall>k'. k' \<noteq> k \<longrightarrow> tasksByDate (setTasksForKey k arr st) k' = tasksByDate st k') \<and>
   (length wd = 7 \<and> distinct (map key wd) \<and> selectedDayIndex st < 7 \<and>
      importYesterday uids nows wd st = Inr st'
    \<longrightarrow> (\<exists>sk yk. selectedKey wd st = Inr sk \<and> yesterdayKey wd st = Inr yk \<and> yk \<noteq> sk \<and>
           tasksByDate st' yk = tasksByDate st yk \<and>
           (\<forall>k'. k' \<noteq> sk \<longrightarrow> tasksByDate st' k' = tasksByDate st k')))"
proof (intro conjI impI allI)
  show "tasksByDate (setTasksForKey k arr st) k = Some arr" by (simp add: setTasksForKey_def)
next
  fix k' assume "k' \<noteq> k"
  then show "tasksByDate (setTasksForKey k arr st) k' = tasksByDate st k'"
    by (simp add: setTasksForKey_def)
next
  assume h: "length wd = 7 \<and> distinct (map key wd) \<and> selectedDayIndex st < 7 \<and>
      importYesterday uids nows wd st = Inr st'"
  then obtain sk yk where k: "selectedKey wd st = Inr sk" "yesterdayKey wd st = Inr yk" "yk \<noteq> sk"
    using week_keys_differ [of wd st] by blast
  from h have i: "importYesterday uids nows wd st = Inr st'" by simp
  have "\<forall>k'. k' \<noteq> sk \<longrightarrow> tasksByDate st' k' = tasksByDate st k'"
    using importYesterday_frame [OF k(1) i] by blast
  with k show "\<exists>sk yk. selectedKey wd st = Inr sk \<and> yesterdayKey wd st = Inr yk \<and> yk \<noteq> sk \<and>
           tasksByDate st' yk = tasksByDate st yk \<and>
           (\<forall>k'. k' \<noteq> sk \<longrightarrow> tasksByDate st' k' = tasksByDate st k')"
    by blast
qed

lemma demo_week: "length (weekDates dayKey 0) = 7" "distinct (map key (weekDates dayKey 0))"
  by (simp_all add: weekDates_unfold dayKey_def)

theorem setTasksForKey_frame_witness:
  "dayKey 1 \<noteq> dayKey 0 \<and>
   tasksByDate (setTasksForKey (dayKey 0) (Tasks []) mondayState) (dayKey 0) = Some (Tasks []) \<and>
   tasksByDate (setTasksForKey (dayKey 0) (Tasks []) mondayState) (dayKey 1)
     = tasksByDate mondayState (dayKey 1) \<and>
   length (weekDates dayKey 0) = 7 \<and> distinct (map key (weekDates dayKey 0)) \<and>
   selectedDayIndex tuesdayState < 7 \<and>
   (\<exists>st'. importYesterday uidsDemo nowsDemo (weekDates dayKey 0) tuesdayState = Inr st' \<and>
      tasksByDate st' (dayKey 1) \<noteq> tasksByDate tuesdayState (dayKey 1) \<and>
      tasksByDate st' (dayKey 0) = Some (Tasks [taskA, taskB, taskC]))"
proof -
  have n: "dayKey 1 \<noteq> dayKey 0" by (simp add: dayKey_def)
  have d: "selectedDayIndex tuesdayState < 7" by (simp add: tuesdayState_def)
  have m: "tasksByDate tuesdayState (dayKey 0) = Some (Tasks [taskA, taskB, taskC])"
    by (simp add: tuesdayState_def mondayState_def)
  note f = setTasksForKey_frame [of "dayKey 0" "Tasks []" mondayState]
  from f have 1: "tasksByDate (setTasksForKey (dayKey 0) (Tasks []) mondayState) (dayKey 0)
      = Some (Tasks [])" by blast
  from f n have 2: "tasksByDate (setTasksForKey (dayKey 0) (Tasks []) mondayState) (dayKey 1)
     = tasksByDate mondayState (dayKey 1)" by blast
  let ?st' = "setTasksForKey (dayKey 1)
            (Tasks [\<lparr>id' = uidsDemo 0, text = [0x41], done = False, createdAt = nowsDemo 0\<rparr>,
                    \<lparr>id' = uidsDemo 1, text = [0x43], done = False, createdAt = nowsDemo 1\<rparr>])
            tuesdayState"
  have i: "importYesterday uidsDemo nowsDemo (weekDates dayKey 0) tuesdayState = Inr ?st'"
    by (rule tuesday_import)
  from setTasksForKey_frame [of _ _ tuesdayState "weekDates dayKey 0" uidsDemo nowsDemo ?st']
    demo_week d i tuesday_keys
  have "tasksByDate ?st' (dayKey 0) = tasksByDate tuesdayState (dayKey 0)" by auto
  with m have 3: "tasksByDate ?st' (dayKey 0) = Some (Tasks [taskA, taskB, taskC])" by simp
  have 4: "tasksByDate ?st' (dayKey 1) \<noteq> tasksByDate tuesdayState (dayKey 1)"
    by (simp add: setTasksForKey_def tuesdayState_def mondayState_def dayKey_def)
  from n 1 2 3 4 i d demo_week show ?thesis by blast
qed

section \<open>Next day and previous day\<close>

lemma keyAt_weekDates:
  assumes "i < 7"
  shows "keyAt (weekDates isoDate ws) i = Inr (key (weekDates isoDate ws ! i))"
    and "key (weekDates isoDate ws ! i) = isoDate (ws + int i)"
    and "date (weekDates isoDate ws ! i) = ws + int i"
    and "index (weekDates isoDate ws ! i) = i"
  using assms by (simp_all add: keyAt_def weekDates_def)

lemma startOfWeek_int:
  "startOfWeek today = today - ((today + 4) mod 7 + 6) mod 7"
proof -
  have "int ((nat ((today + 4) mod 7) + 6) mod 7) = ((today + 4) mod 7 + 6) mod 7"
    by (simp add: zmod_int)
  then show ?thesis by (simp add: startOfWeek_def getDay_def)
qed

lemma startOfWeek_monday: "getDay (startOfWeek today) = 1" "getDay (startOfWeek today + 6) = 0"
proof -
  have "(startOfWeek today + 4) mod 7 = 1"
    unfolding startOfWeek_int by presburger
  then show "getDay (startOfWeek today) = 1" by (simp add: getDay_def)
  have "(startOfWeek today + 6 + 4) mod 7 = 0"
    unfolding startOfWeek_int by presburger
  then show "getDay (startOfWeek today + 6) = 0" by (simp add: getDay_def)
qed

text \<open>
  C9. With the selected index \<open>d\<close> in 0..6 and \<open>wd\<close> the displayed week, the next-day key
  is the key of entry \<open>(d + 1) mod 7\<close> and the previous-day key the key of entry
  \<open>(d + 6) mod 7\<close> of \<open>wd\<close>, each entry being the day that many days after the week's
  first. Entry 0 is a Monday and entry 6 a Sunday (\<^verbatim>\<open>getDay\<close> 1 and 0). From the Monday
  (\<open>d = 0\<close>) the previous-day key is that of entry 6, six days after the Monday and not
  the day before it.
\<close>

theorem day_keys_wrap_within_week:
  assumes "selectedDayIndex st < 7" and "wd = weekDates isoDate (startOfWeek today)"
  shows "selectedKey wd st = Inr (key (wd ! selectedDayIndex st)) \<and>
         nextDayKey wd st = Inr (key (wd ! ((selectedDayIndex st + 1) mod 7))) \<and>
         yesterdayKey wd st = Inr (key (wd ! ((selectedDayIndex st + 6) mod 7))) \<and>
         date (wd ! ((selectedDayIndex st + 1) mod 7))
           = startOfWeek today + int ((selectedDayIndex st + 1) mod 7) \<and>
         date (wd ! ((selectedDayIndex st + 6) mod 7))
           = startOfWeek today + int ((selectedDayIndex st + 6) mod 7) \<and>
         getDay (date (wd ! 0)) = 1 \<and> getDay (date (wd ! 6)) = 0 \<and>
         (selectedDayIndex st = 0 \<longrightarrow>
            yesterdayKey wd st = Inr (key (wd ! 6)) \<and>
            date (wd ! 6) = date (wd ! 0) + 6 \<and> date (wd ! 6) \<noteq> date (wd ! 0) - 1)"
proof -
  let ?d = "selectedDayIndex st"
  have n: "(?d + 1) mod 7 < 7" and y: "(?d + 6) mod 7 < 7" by simp_all
  have 1: "selectedKey wd st = Inr (key (wd ! ?d))"
    unfolding selectedKey_def assms(2) using assms(1) by (rule keyAt_weekDates(1))
  have 2: "nextDayKey wd st = Inr (key (wd ! ((?d + 1) mod 7)))"
    unfolding nextDayKey_def assms(2) using n by (rule keyAt_weekDates(1))
  have 3: "yesterdayKey wd st = Inr (key (wd ! ((?d + 6) mod 7)))"
    unfolding yesterdayKey_def assms(2) using y by (rule keyAt_weekDates(1))
  have 4: "date (wd ! ((?d + 1) mod 7)) = startOfWeek today + int ((?d + 1) mod 7)"
    unfolding assms(2) using n by (rule keyAt_weekDates(3))
  have 5: "date (wd ! ((?d + 6) mod 7)) = startOfWeek today + int ((?d + 6) mod 7)"
    unfolding assms(2) using y by (rule keyAt_weekDates(3))
  have d0: "date (wd ! 0) = startOfWeek today"
    unfolding assms(2) using keyAt_weekDates(3) [of 0 isoDate "startOfWeek today"] by simp
  have d6: "date (wd ! 6) = startOfWeek today + 6"
    unfolding assms(2) using keyAt_weekDates(3) [of 6 isoDate "startOfWeek today"] by simp
  have 6: "getDay (date (wd ! 0)) = 1" unfolding d0 by (rule startOfWeek_monday(1))
  have 7: "getDay (date (wd ! 6)) = 0" unfolding d6 by (rule startOfWeek_monday(2))
  have 8: "?d = 0 \<longrightarrow> yesterdayKey wd st = Inr (key (wd ! 6)) \<and>
            date (wd ! 6) = date (wd ! 0) + 6 \<and> date (wd ! 6) \<noteq> date (wd ! 0) - 1"
    using 3 d0 d6 by simp
  from 1 2 3 4 5 6 7 8 show ?thesis by blast
qed

theorem day_keys_wrap_within_week_witness:
  "selectedDayIndex mondayState < 7 \<and> selectedDayIndex mondayState = 0 \<and>
   startOfWeek 20411 = 20409 \<and>
   nextDayKey (weekDates dayKey (startOfWeek 20411)) mondayState = Inr (dayKey 20410) \<and>
   yesterdayKey (weekDates dayKey (startOfWeek 20411)) mondayState = Inr (dayKey 20415) \<and>
   selectedDayIndex tuesdayState < 7 \<and>
   nextDayKey (weekDates dayKey (startOfWeek 20411)) tuesdayState = Inr (dayKey 20411) \<and>
   yesterdayKey (weekDates dayKey (startOfWeek 20411)) tuesdayState = Inr (dayKey 20409)"
proof -
  have s: "startOfWeek 20411 = 20409" by (simp add: startOfWeek_def getDay_def)
  have m: "selectedDayIndex mondayState = 0" by (simp add: mondayState_def)
  have t: "selectedDayIndex tuesdayState = 1" by (simp add: tuesdayState_def)
  have w: "weekDates dayKey (startOfWeek 20411) = weekDates dayKey (startOfWeek 20411)" ..
  from day_keys_wrap_within_week [OF _ w, of mondayState] m
  have 1: "nextDayKey (weekDates dayKey (startOfWeek 20411)) mondayState = Inr (dayKey 20410)"
    and 2: "yesterdayKey (weekDates dayKey (startOfWeek 20411)) mondayState = Inr (dayKey 20415)"
    by (simp_all add: s weekDates_unfold)
  from day_keys_wrap_within_week [OF _ w, of tuesdayState] t
  have 3: "nextDayKey (weekDates dayKey (startOfWeek 20411)) tuesdayState = Inr (dayKey 20411)"
    and 4: "yesterdayKey (weekDates dayKey (startOfWeek 20411)) tuesdayState = Inr (dayKey 20409)"
    by (simp_all add: s weekDates_unfold)
  from 1 2 3 4 s m t show ?thesis by simp
qed


section \<open>Statistics and filter projections\<close>

lemma filter_partition_mset:
  "mset (filter (\<lambda>t. \<not> P t) xs) + mset (filter P xs) = mset xs"
  by (induction xs) simp_all

lemma filter_partition_length:
  "length xs = length (filter (\<lambda>t. \<not> P t) xs) + length (filter P xs)"
  by (induction xs) simp_all

lemma visible_filter:
  assumes "selectedKey wd st = Inr sk" and "tasksForKey st sk = Tasks ts"
  shows "visible wd (st\<lparr>filter' := FilterAll\<rparr>) = Inr ts"
    and "visible wd (st\<lparr>filter' := FilterActive\<rparr>) = Inr (filter (\<lambda>t. \<not> done t) ts)"
    and "visible wd (st\<lparr>filter' := FilterDone\<rparr>) = Inr (filter (\<lambda>t. done t) ts)"
  using assms by (simp_all add: visible_def selectedKey_def tasksForKey_def asArray_def)

text \<open>
  C10. For the selected bucket, an array \<open>ts\<close>: the total is the length of \<open>ts\<close> and equals
  the active count plus the done count; the projection under \<^verbatim>\<open>"all"\<close> is \<open>ts\<close> itself; the
  projections under \<^verbatim>\<open>"active"\<close> and \<^verbatim>\<open>"done"\<close> have the counted lengths, together hold
  every task of \<open>ts\<close> as often as \<open>ts\<close> does, share no task, and each keeps the order of
  \<open>ts\<close>.
\<close>

theorem stats_and_projections:
  assumes "selectedKey wd st = Inr sk" and "tasksForKey st sk = Tasks ts"
  shows "\<exists>s av dv. stats wd st = Inr s \<and>
           total s = length ts \<and> total s = active s + done' s \<and>
           visible wd (st\<lparr>filter' := FilterAll\<rparr>) = Inr ts \<and>
           visible wd (st\<lparr>filter' := FilterActive\<rparr>) = Inr av \<and>
           visible wd (st\<lparr>filter' := FilterDone\<rparr>) = Inr dv \<and>
           active s = length av \<and> done' s = length dv \<and>
           mset av + mset dv = mset ts \<and> set av \<inter> set dv = {} \<and>
           subseq av ts \<and> subseq dv ts"
proof -
  let ?av = "filter (\<lambda>t. \<not> done t) ts"
  let ?dv = "filter (\<lambda>t. done t) ts"
  let ?s = "\<lparr>total = length ts, active = length ?av, done' = length ?dv\<rparr>"
  have 1: "stats wd st = Inr ?s" using assms by (simp add: stats_def asArray_def)
  have 2: "total ?s = length ts" by simp
  have 3: "total ?s = active ?s + done' ?s"
    using filter_partition_length [of ts "\<lambda>t. done t"] by simp
  have 4: "mset ?av + mset ?dv = mset ts" by (rule filter_partition_mset)
  have 5: "set ?av \<inter> set ?dv = {}" by auto
  have 6: "subseq ?av ts" "subseq ?dv ts" by simp_all
  have 7: "active ?s = length ?av" "done' ?s = length ?dv" by simp_all
  from 1 2 3 4 5 6 7 visible_filter [OF assms] show ?thesis by blast
qed

lemma monday_key: "selectedKey (weekDates dayKey 0) mondayState = Inr (dayKey 0)"
  by (simp add: selectedKey_def keyAt_def weekDates_unfold mondayState_def)

theorem stats_and_projections_witness:
  "selectedKey (weekDates dayKey 0) mondayState = Inr (dayKey 0) \<and>
   tasksForKey mondayState (dayKey 0) = Tasks [taskA, taskB, taskC] \<and>
   stats (weekDates dayKey 0) mondayState = Inr \<lparr>total = 3, active = 2, done' = 1\<rparr> \<and>
   visible (weekDates dayKey 0) (mondayState\<lparr>filter' := FilterAll\<rparr>) = Inr [taskA, taskB, taskC] \<and>
   visible (weekDates dayKey 0) (mondayState\<lparr>filter' := FilterActive\<rparr>) = Inr [taskA, taskC] \<and>
   visible (weekDates dayKey 0) (mondayState\<lparr>filter' := FilterDone\<rparr>) = Inr [taskB]"
proof -
  from stats_and_projections [OF monday_key monday_bucket]
  obtain s av dv where s: "stats (weekDates dayKey 0) mondayState = Inr s"
    and a: "visible (weekDates dayKey 0) (mondayState\<lparr>filter' := FilterAll\<rparr>)
              = Inr [taskA, taskB, taskC]"
    by blast
  have s': "stats (weekDates dayKey 0) mondayState = Inr \<lparr>total = 3, active = 2, done' = 1\<rparr>"
    by (simp add: stats_def monday_key monday_bucket asArray_def taskA_def taskB_def taskC_def)
  have v: "visible (weekDates dayKey 0) (mondayState\<lparr>filter' := FilterActive\<rparr>) = Inr [taskA, taskC]"
    "visible (weekDates dayKey 0) (mondayState\<lparr>filter' := FilterDone\<rparr>) = Inr [taskB]"
    unfolding visible_filter [OF monday_key monday_bucket]
    by (simp_all add: taskA_def taskB_def taskC_def)
  from a s' v monday_key monday_bucket show ?thesis by blast
qed

end
